theory Spec2Isabelle
  imports Complex_Main "HOL-Library.Multiset"
begin

section \<open>Time, order states and errors\<close>

text \<open>
  A \<open>time.Time\<close> is an instant in nanoseconds and a \<open>time.Duration\<close> a signed 64-bit
  count of nanoseconds. \<open>Time.Sub\<close> saturates at the largest and smallest duration,
  and arithmetic on durations wraps around at 64 bits. A \<open>float64\<close> is read as a real
  number: rounding, infinities and NaN are outside this development.
\<close>

type_synonym Time = int
type_synonym Duration = int

definition maxDuration :: Duration where
  "maxDuration = 2 ^ 63 - 1"

definition minDuration :: Duration where
  "minDuration = - (2 ^ 63)"

definition Sub :: "Time \<Rightarrow> Time \<Rightarrow> Duration" where
  "Sub t u = max minDuration (min maxDuration (t - u))"

definition int64 :: "int \<Rightarrow> Duration" where
  "int64 x = (x + 2 ^ 63) mod 2 ^ 64 - 2 ^ 63"

text \<open>
  \<open>type OrderState string\<close>: a state is a string, five of them named. The zero value
  of a new order is the empty string.
\<close>

type_synonym OrderState = string

definition Unset :: OrderState where "Unset = []"
definition Created :: OrderState where "Created = ''created''"
definition Ready :: OrderState where "Ready = ''ready''"
definition Enroute :: OrderState where "Enroute = ''enroute''"
definition PickedUp :: OrderState where "PickedUp = ''pickedup''"
definition Trashed :: OrderState where "Trashed = ''trashed''"

text \<open>
  The source builds its errors with \<open>fmt.Errorf\<close> and \<open>errors.New\<close>; the model keeps
  which error it is and drops the message text. \<open>Other\<close> stands for an error made by a
  caller's side effect.
\<close>

datatype error =
    WrongState      \<comment> \<open>order ... in incorrect state ..., expected ...\<close>
  | Terminal        \<comment> \<open>order ... was in terminal state ..., invalid transition\<close>
  | Expired         \<comment> \<open>order ... expired\<close>
  | AtCapacity      \<comment> \<open>failed to put order on shelf, staticShelf is at capacity\<close>
  | NotFound        \<comment> \<open>order not present in shelf / attempted to remove order that does not exist\<close>
  | Unsupported     \<comment> \<open>no shelves available for this order type\<close>
  | NoShelf         \<comment> \<open>failed to place order on a valid shelf\<close>
  | Other string

section \<open>The store: shelves and orders behind pointers\<close>

text \<open>
  Shelves and orders are shared through pointers: a shelf maps order ids to orders, an
  order points back to its shelf. Both live in a store, addressed by natural numbers.
  A clock (\<open>func() time.Time\<close>) is a function of the logical instant \<open>ticks\<close>, which
  advances with every reading, so that two readings in one call may differ.
  Calls are taken one at a time, each run to its end: the locks of shelves and orders
  are not part of the model. The fields \<open>id\<close>, \<open>name\<close> and \<open>now\<close> of an order are
  \<open>order_id\<close>, \<open>order_name\<close> and \<open>order_now\<close> here, the kitchen's \<open>now\<close> is
  \<open>kitchen_now\<close>, and the fields of a shelf descriptor carry the prefix \<open>cfg_\<close>.
\<close>

record staticShelf =
  name :: string
  orders :: "string \<rightharpoonup> nat"
  numOrders :: int
  capacity :: int
  supported :: "string list"
  decayRate :: real

record Order =
  order_id :: string
  order_name :: string
  temp :: string
  shelfLife :: Duration
  baseDecayRate :: real
  state :: OrderState
  prevDecayed :: real
  createdAt :: Time
  readyAt :: Time
  enrouteAt :: Time
  pickedUpAt :: Time
  trashedAt :: Time
  shelf :: "nat option"
  placedAt :: Time
  order_now :: "nat \<Rightarrow> Time"

record heap =
  shelf_at :: "nat \<Rightarrow> staticShelf"
  order_at :: "nat \<Rightarrow> Order"
  shelf_count :: nat
  order_count :: nat
  ticks :: nat
  wall_clock :: "nat \<Rightarrow> Time"

definition empty_heap :: "(nat \<Rightarrow> Time) \<Rightarrow> heap" where
  "empty_heap clk =
     \<lparr>shelf_at = (\<lambda>_. \<lparr>name = [], orders = Map.empty, numOrders = 0, capacity = 0,
                          supported = [], decayRate = 0\<rparr>),
      order_at = (\<lambda>_. \<lparr>order_id = [], order_name = [], temp = [], shelfLife = 0,
                          baseDecayRate = 0, state = Unset, prevDecayed = 0, createdAt = 0,
                          readyAt = 0, enrouteAt = 0, pickedUpAt = 0, trashedAt = 0,
                          shelf = None, placedAt = 0, order_now = clk\<rparr>),
      shelf_count = 0, order_count = 0, ticks = 0, wall_clock = clk\<rparr>"

section \<open>staticShelf\<close>

definition Supported :: "nat \<Rightarrow> heap \<Rightarrow> string list" where
  "Supported s h = supported (shelf_at h s)"

definition Capacity :: "nat \<Rightarrow> heap \<Rightarrow> int" where
  "Capacity s h = capacity (shelf_at h s)"

definition Decay :: "nat \<Rightarrow> heap \<Rightarrow> real" where
  "Decay s h = decayRate (shelf_at h s)"

definition ID :: "nat \<Rightarrow> heap \<Rightarrow> string" where
  "ID p h = order_id (order_at h p)"

definition Get :: "nat \<Rightarrow> string \<Rightarrow> heap \<Rightarrow> error + nat" where
  "Get s orderID h =
     (case orders (shelf_at h s) orderID of
        None \<Rightarrow> Inl NotFound
      | Some p \<Rightarrow> Inr p)"

definition Put :: "nat \<Rightarrow> nat \<Rightarrow> heap \<Rightarrow> error option \<times> heap" where
  "Put s p h =
     (let sh = shelf_at h s in
      if orders sh (ID p h) \<noteq> None then (None, h)
      else if numOrders sh \<ge> capacity sh then (Some AtCapacity, h)
      else (None, h\<lparr>shelf_at := (shelf_at h)
              (s := sh\<lparr>numOrders := numOrders sh + 1,
                       orders := (orders sh)(ID p h \<mapsto> p)\<rparr>)\<rparr>))"

definition Remove :: "nat \<Rightarrow> string \<Rightarrow> heap \<Rightarrow> error option \<times> heap" where
  "Remove s orderID h =
     (let sh = shelf_at h s in
      if orders sh orderID = None then (Some NotFound, h)
      else (None, h\<lparr>shelf_at := (shelf_at h)
              (s := sh\<lparr>numOrders := numOrders sh - 1,
                       orders := (orders sh)(orderID := None)\<rparr>)\<rparr>))"

definition NewStaticShelf ::
  "string \<Rightarrow> int \<Rightarrow> string list \<Rightarrow> real \<Rightarrow> heap \<Rightarrow> nat \<times> heap" where
  "NewStaticShelf nm cap spt rate h =
     (shelf_count h,
      h\<lparr>shelf_at := (shelf_at h)
           (shelf_count h := \<lparr>name = nm, orders = Map.empty, numOrders = 0, capacity = cap,
                               supported = spt, decayRate = rate\<rparr>),
        shelf_count := Suc (shelf_count h)\<rparr>)"

section \<open>Order\<close>

definition NewOrder ::
  "string \<Rightarrow> string \<Rightarrow> string \<Rightarrow> Duration \<Rightarrow> real \<Rightarrow> heap \<Rightarrow> nat \<times> heap" where
  \<comment> \<open>The first argument is the identifier drawn by \<open>uuid.New()\<close>.\<close>
  "NewOrder uuid nm tmp life rate h =
     (order_count h,
      h\<lparr>order_at := (order_at h)
           (order_count h := \<lparr>order_id = uuid, order_name = nm, temp = tmp, shelfLife = life,
                               baseDecayRate = rate, state = Unset, prevDecayed = 0,
                               createdAt = 0, readyAt = 0, enrouteAt = 0, pickedUpAt = 0,
                               trashedAt = 0, shelf = None, placedAt = 0,
                               order_now = wall_clock h\<rparr>),
        order_count := Suc (order_count h)\<rparr>)"

definition update_order :: "nat \<Rightarrow> (Order \<Rightarrow> Order) \<Rightarrow> heap \<Rightarrow> heap" where
  "update_order p f h = h\<lparr>order_at := (order_at h)(p := f (order_at h p))\<rparr>"

definition call_now :: "nat \<Rightarrow> heap \<Rightarrow> Time \<times> heap" where
  \<comment> \<open>\<open>order.now()\<close>\<close>
  "call_now p h = (order_now (order_at h p) (ticks h), h\<lparr>ticks := Suc (ticks h)\<rparr>)"

definition Temp :: "nat \<Rightarrow> heap \<Rightarrow> string" where
  "Temp p h = temp (order_at h p)"

definition State :: "nat \<Rightarrow> heap \<Rightarrow> OrderState" where
  "State p h = state (order_at h p)"

definition Shelf :: "nat \<Rightarrow> heap \<Rightarrow> nat option" where
  "Shelf p h = shelf (order_at h p)"

definition age :: "nat \<Rightarrow> heap \<Rightarrow> Duration \<times> heap" where
  "age p h =
     (let (t, h1) = call_now p h; ordr = order_at h1 p in
      if state ordr = PickedUp then (Sub (pickedUpAt ordr) (readyAt ordr), h1)
      else if state ordr = Trashed then (0, h1)
      else (Sub t (readyAt ordr), h1))"

definition rawValue :: "nat \<Rightarrow> heap \<Rightarrow> real \<times> heap" where
  "rawValue p h =
     (let ordr = order_at h p in
      if state ordr = Unset \<or> state ordr = Created \<or> state ordr = Trashed then (0, h)
      else let (a, h1) = age p h in (real_of_int (int64 (shelfLife ordr - a)), h1))"

definition decayed :: "nat \<Rightarrow> heap \<Rightarrow> real \<times> heap" where
  "decayed p h =
     (let ordr = order_at h p;
          (decay, h1) =
            (case shelf ordr of
               None \<Rightarrow> (0, h)
             | Some s \<Rightarrow>
                 let (t, h') = call_now p h;
                     t' = (if state ordr = PickedUp then pickedUpAt ordr else t);
                     timeAt = Sub t' (placedAt ordr)
                 in (Decay s h' * real_of_int timeAt, h'));
          (a, h2) = age p h1
      in (prevDecayed ordr + (decay + baseDecayRate ordr * real_of_int a), h2))"

definition "value" :: "nat \<Rightarrow> heap \<Rightarrow> real \<times> heap" where
  "value p h =
     (let (r, h1) = rawValue p h; (d, h2) = decayed p h1 in (r - d, h2))"

definition isExpired :: "nat \<Rightarrow> heap \<Rightarrow> bool \<times> heap" where
  "isExpired p h =
     (let ordr = order_at h p in
      if state ordr = Unset \<or> state ordr = Created \<or> state ordr = PickedUp
           \<or> state ordr = Trashed
      then (False, h)
      else let (v, h1) = value p h in (v \<le> 0, h1))"

definition removeOrder :: "nat \<Rightarrow> heap \<Rightarrow> heap" where
  "removeOrder p h =
     (case shelf (order_at h p) of
        None \<Rightarrow> h
      | Some s \<Rightarrow>
          let (t, h1) = call_now p h;
              timeAt = Sub t (placedAt (order_at h1 p));
              decay = Decay s h1 * real_of_int timeAt;
              h2 = update_order p (\<lambda>ordr. ordr\<lparr>prevDecayed := prevDecayed ordr + decay\<rparr>) h1;
              (_, h3) = Remove s (ID p h2) h2
          in update_order p (\<lambda>ordr. ordr\<lparr>shelf := None\<rparr>) h3)"

definition SetShelf :: "nat \<Rightarrow> nat \<Rightarrow> heap \<Rightarrow> error option \<times> heap" where
  "SetShelf p s h =
     (let (err, h1) = Put s p h in
      if err \<noteq> None then (err, h1)
      else
        let h2 = removeOrder p h1;
            h3 = update_order p (\<lambda>ordr. ordr\<lparr>shelf := Some s\<rparr>) h2;
            (t, h4) = call_now p h3
        in (None, update_order p (\<lambda>ordr. ordr\<lparr>placedAt := t\<rparr>) h4))"

text \<open>
  A side effect is a closure \<open>func(*Order) error\<close>: it gets the order and may change
  anything in the store.
\<close>

type_synonym sideEffect = "nat \<Rightarrow> heap \<Rightarrow> error option \<times> heap"

definition TransitionOrder ::
  "nat \<Rightarrow> OrderState \<Rightarrow> OrderState \<Rightarrow> sideEffect \<Rightarrow> heap \<Rightarrow> error option \<times> heap" where
  "TransitionOrder p expectedState newState effect h =
     (if state (order_at h p) \<noteq> expectedState then (Some WrongState, h)
      else if state (order_at h p) = PickedUp \<or> state (order_at h p) = Trashed
      then (Some Terminal, h)
      else
        let (expired, h1) = isExpired p h in
        if expired then
          let h2 = update_order p (\<lambda>ordr. ordr\<lparr>state := Trashed\<rparr>) h1;
              (t, h3) = call_now p h2;
              h4 = update_order p (\<lambda>ordr. ordr\<lparr>trashedAt := t\<rparr>) h3
          in (Some Expired, removeOrder p h4)
        else
          effect p (update_order p (\<lambda>ordr. ordr\<lparr>state := newState\<rparr>) h1))"

section \<open>Kitchen\<close>

record Kitchen =
  shelvesAsc :: "nat list"
  shelvesDesc :: "nat list"
  supportedIndex :: "string \<rightharpoonup> nat list"
  kitchen_now :: "nat \<Rightarrow> Time"

record shelfConfig =
  cfg_Name :: string
  cfg_Capacity :: int
  cfg_Supported :: "string list"
  cfg_DecayRate :: real
  cfg_Type :: string

record kitchenConfig =
  cfg_RunDecayMinimizer :: bool
  cfg_Topology :: "shelfConfig list"

definition k_now :: "Kitchen \<Rightarrow> heap \<Rightarrow> Time \<times> heap" where
  \<comment> \<open>\<open>k.now()\<close>\<close>
  "k_now k h = (kitchen_now k (ticks h), h\<lparr>ticks := Suc (ticks h)\<rparr>)"

text \<open>
  \<open>sort.Slice\<close> is not stable. On a slice of fewer than twelve elements it runs an
  insertion sort, each element moved left past the elements it is less than; that is
  the sort written here, the sorted prefix held in reverse. On a longer slice the
  library's result is again a sorted permutation, where elements that compare equal may
  stand in another order.
\<close>

fun sift :: "('a \<Rightarrow> 'a \<Rightarrow> bool) \<Rightarrow> 'a \<Rightarrow> 'a list \<Rightarrow> 'a list" where
  "sift lt x [] = [x]"
| "sift lt x (y # ys) = (if lt x y then y # sift lt x ys else x # y # ys)"

definition sort_Slice :: "('a \<Rightarrow> 'a \<Rightarrow> bool) \<Rightarrow> 'a list \<Rightarrow> 'a list" where
  "sort_Slice lt xs = rev (foldl (\<lambda>acc x. sift lt x acc) [] xs)"

text \<open>
  The two loops of \<open>optimizePlacement\<close>: over the candidate shelves, and for each
  shelf over its supported temperatures. \<open>continue\<close> goes on in the inner loop;
  \<open>return true\<close> leaves both.
\<close>

fun optimizePlacement_supported ::
  "nat \<Rightarrow> nat option \<Rightarrow> string \<Rightarrow> nat \<Rightarrow> string list \<Rightarrow> heap \<Rightarrow> bool \<times> heap" where
  "optimizePlacement_supported p currentShelf orderType s [] h = (False, h)"
| "optimizePlacement_supported p currentShelf orderType s (spt # rest) h =
     (if orderType = spt then
        if currentShelf \<noteq> None \<and> currentShelf = Some s
        then optimizePlacement_supported p currentShelf orderType s rest h
        else if (case currentShelf of None \<Rightarrow> False | Some c \<Rightarrow> Decay c h \<le> Decay s h)
        then optimizePlacement_supported p currentShelf orderType s rest h
        else
          let (err, h1) = SetShelf p s h in
          if err = None then (True, h1)
          else optimizePlacement_supported p currentShelf orderType s rest h1
      else optimizePlacement_supported p currentShelf orderType s rest h)"

fun optimizePlacement_shelves ::
  "nat \<Rightarrow> nat option \<Rightarrow> string \<Rightarrow> nat list \<Rightarrow> heap \<Rightarrow> bool \<times> heap" where
  "optimizePlacement_shelves p currentShelf orderType [] h = (False, h)"
| "optimizePlacement_shelves p currentShelf orderType (s # candidates) h =
     (let (placed, h1) =
            optimizePlacement_supported p currentShelf orderType s (Supported s h) h
      in if placed then (True, h1)
         else optimizePlacement_shelves p currentShelf orderType candidates h1)"

definition no_effect :: sideEffect where
  "no_effect p h = (None, h)"

definition optimizePlacement :: "nat \<Rightarrow> nat list \<Rightarrow> heap \<Rightarrow> bool \<times> heap" where
  \<comment> \<open>The method does not use its receiver, the kitchen.\<close>
  "optimizePlacement p candidates h =
     (let (expired, h1) = isExpired p h in
      if expired then
        (False, snd (TransitionOrder p (State p h1) Trashed no_effect h1))
      else
        optimizePlacement_shelves p (Shelf p h1) (Temp p h1) candidates h1)"

text \<open>
  What the two loops look for: a candidate that supports the order's temperature, is
  not the current shelf, has a strictly smaller decay rate than the current shelf when
  there is one, and takes the order.
\<close>

definition accepts :: "nat \<Rightarrow> nat option \<Rightarrow> string \<Rightarrow> heap \<Rightarrow> nat \<Rightarrow> bool" where
  "accepts p currentShelf orderType h s \<longleftrightarrow>
     orderType \<in> set (Supported s h) \<and> currentShelf \<noteq> Some s \<and>
     (case currentShelf of None \<Rightarrow> True | Some c \<Rightarrow> \<not> Decay c h \<le> Decay s h) \<and>
     fst (SetShelf p s h) = None"

definition ToLower :: "string \<Rightarrow> string" where
  \<comment> \<open>\<open>strings.ToLower\<close> on ASCII text: the letters A to Z are mapped, every other byte is kept.\<close>
  "ToLower str =
     map (\<lambda>c. if 65 \<le> (of_char c :: nat) \<and> (of_char c :: nat) \<le> 90
               then char_of ((of_char c :: nat) + 32) else c) str"

definition buildShelf :: "shelfConfig \<Rightarrow> heap \<Rightarrow> nat option \<times> heap" where
  \<comment> \<open>A Go \<open>case\<close> does not fall through: the empty \<open>case "static":\<close> leaves the
      \<open>switch\<close> and reaches \<open>return nil\<close>.\<close>
  "buildShelf cfg h =
     (if ToLower (cfg_Type cfg) = ''static'' then (None, h)
      else
        let (s, h1) = NewStaticShelf (cfg_Name cfg) (cfg_Capacity cfg) (cfg_Supported cfg)
                        (cfg_DecayRate cfg) h
        in (Some s, h1))"

definition index_lookup :: "(string \<rightharpoonup> nat list) \<Rightarrow> string \<Rightarrow> nat list" where
  \<comment> \<open>\<open>index[supported]\<close>: the nil slice when the key is missing\<close>
  "index_lookup index spt = (case index spt of None \<Rightarrow> [] | Some l \<Rightarrow> l)"

definition index_append :: "nat \<Rightarrow> (string \<rightharpoonup> nat list) \<Rightarrow> string \<Rightarrow> (string \<rightharpoonup> nat list)" where
  \<comment> \<open>\<open>index[supported] = append(index[supported], shelf)\<close>\<close>
  "index_append s index spt = index(spt \<mapsto> index_lookup index spt @ [s])"

fun buildTopology_loop ::
  "shelfConfig list \<Rightarrow> nat list \<Rightarrow> (string \<rightharpoonup> nat list) \<Rightarrow> heap
     \<Rightarrow> (nat list \<times> (string \<rightharpoonup> nat list)) \<times> heap" where
  "buildTopology_loop [] shelves index h = ((shelves, index), h)"
| "buildTopology_loop (c # cs) shelves index h =
     (case buildShelf c h of
        (None, h1) \<Rightarrow> buildTopology_loop cs shelves index h1
      | (Some s, h1) \<Rightarrow>
          buildTopology_loop cs (shelves @ [s])
            (foldl (index_append s) index (Supported s h1)) h1)"

definition buildTopology ::
  "kitchenConfig \<Rightarrow> heap \<Rightarrow> (nat list \<times> (string \<rightharpoonup> nat list)) \<times> heap" where
  "buildTopology cfg h = buildTopology_loop (cfg_Topology cfg) [] Map.empty h"

text \<open>
  What the loop of \<open>buildTopology\<close> keeps: the shelves built so far are allocated, the
  index lists under each temperature exactly the shelves built so far that support it,
  and no list is empty.
\<close>

definition index_of :: "heap \<Rightarrow> nat list \<Rightarrow> (string \<rightharpoonup> nat list) \<Rightarrow> bool" where
  "index_of h shelves index \<longleftrightarrow>
     (\<forall>s \<in> set shelves. s < shelf_count h) \<and>
     (\<forall>t. set (index_lookup index t) = {s \<in> set shelves. t \<in> set (supported (shelf_at h s))}) \<and>
     (\<forall>t. index t \<noteq> Some [])"

definition NewKitchen :: "kitchenConfig \<Rightarrow> heap \<Rightarrow> Kitchen \<times> heap" where
  \<comment> \<open>The configuration is the one \<open>loadConfig\<close> returned; the background loop that
      \<open>minimize_decay\<close> starts runs beside the calls and is not part of the value built.\<close>
  "NewKitchen cfg h =
     (let ((shelves, index), h1) = buildTopology cfg h in
      (\<lparr>shelvesAsc = sort_Slice (\<lambda>a b. Decay a h1 < Decay b h1) shelves,
        shelvesDesc = sort_Slice (\<lambda>a b. Decay a h1 > Decay b h1) shelves,
        supportedIndex = index,
        kitchen_now = wall_clock h1\<rparr>, h1))"

definition SetOrderReady :: "Kitchen \<Rightarrow> nat \<Rightarrow> heap \<Rightarrow> error option \<times> Kitchen \<times> heap" where
  \<comment> \<open>\<open>sort.Slice(supported, ...)\<close> sorts the slice held in the map, in place.\<close>
  "SetOrderReady k p h =
     (case supportedIndex k (Temp p h) of
        None \<Rightarrow>
          let (_, h1) = TransitionOrder p Created Trashed
                 (\<lambda>q g. let g1 = update_order q (\<lambda>ordr. ordr\<lparr>state := Trashed\<rparr>) g;
                             (t, g2) = k_now k g1;
                             g3 = update_order q (\<lambda>ordr. ordr\<lparr>trashedAt := t\<rparr>) g2
                         in (None, removeOrder p g3)) h
          in (Some Unsupported, k, h1)
      | Some spt \<Rightarrow>
          let sorted = sort_Slice (\<lambda>a b. Decay a h < Decay b h) spt;
              k1 = k\<lparr>supportedIndex := (supportedIndex k)(Temp p h \<mapsto> sorted)\<rparr>;
              (placed, h1) = optimizePlacement p sorted h
          in if placed then
               let (_, h2) = TransitionOrder p Created Ready
                      (\<lambda>q g. let (t, g1) = k_now k1 g
                              in (None, update_order q (\<lambda>ordr. ordr\<lparr>readyAt := t\<rparr>) g1)) h1
               in (None, k1, h2)
             else
               let (_, h2) = TransitionOrder p Created Trashed
                      (\<lambda>q g. let (t, g1) = k_now k1 g;
                                  g2 = update_order q (\<lambda>ordr. ordr\<lparr>trashedAt := t\<rparr>) g1
                              in (None, removeOrder p g2)) h1
               in (Some NoShelf, k1, h2))"

definition CreateOrder_created :: "Kitchen \<Rightarrow> nat \<Rightarrow> heap \<Rightarrow> heap" where
  \<comment> \<open>The first statement of \<open>CreateOrder\<close>; the error of the transition is dropped.\<close>
  "CreateOrder_created k p h =
     snd (TransitionOrder p Unset Created
            (\<lambda>q g. let (t, g1) = k_now k g
                    in (None, update_order q (\<lambda>ordr. ordr\<lparr>createdAt := t\<rparr>) g1)) h)"

definition CreateOrder :: "Kitchen \<Rightarrow> nat \<Rightarrow> heap \<Rightarrow> error option \<times> Kitchen \<times> heap" where
  "CreateOrder k p h = SetOrderReady k p (CreateOrder_created k p h)"

definition SetOrderEnroute :: "Kitchen \<Rightarrow> nat \<Rightarrow> heap \<Rightarrow> error option \<times> heap" where
  "SetOrderEnroute k p h =
     TransitionOrder p Ready Enroute
       (\<lambda>q g. let (t, g1) = k_now k g
               in (None, update_order q (\<lambda>ordr. ordr\<lparr>enrouteAt := t\<rparr>) g1)) h"

definition SetOrderPickedUp :: "Kitchen \<Rightarrow> nat \<Rightarrow> heap \<Rightarrow> error option \<times> heap" where
  "SetOrderPickedUp k p h =
     TransitionOrder p Enroute PickedUp
       (\<lambda>q g. let (t, g1) = k_now k g;
                   g2 = update_order q (\<lambda>ordr. ordr\<lparr>pickedUpAt := t\<rparr>) g1
               in (None, removeOrder p g2)) h"

section \<open>Sequences of calls and what they keep\<close>

text \<open>A sequence of calls on one shelf.\<close>

datatype shelf_call = CallPut nat | CallRemove string

fun shelf_calls :: "nat \<Rightarrow> shelf_call list \<Rightarrow> heap \<Rightarrow> heap" where
  "shelf_calls s [] h = h"
| "shelf_calls s (CallPut p # cs) h = shelf_calls s cs (snd (Put s p h))"
| "shelf_calls s (CallRemove i # cs) h = shelf_calls s cs (snd (Remove s i h))"

text \<open>
  A sequence of calls on the kitchen. \<open>CallOptimizePlacement\<close> is the call the decay
  minimizer makes for an order: \<open>optimizePlacement\<close> over \<open>shelvesAsc\<close>.
\<close>

datatype kitchen_call =
    CallCreateOrder nat
  | CallSetOrderReady nat
  | CallSetOrderEnroute nat
  | CallSetOrderPickedUp nat
  | CallOptimizePlacement nat

fun kitchen_step :: "kitchen_call \<Rightarrow> Kitchen \<times> heap \<Rightarrow> Kitchen \<times> heap" where
  "kitchen_step (CallCreateOrder p) (k, h) = snd (CreateOrder k p h)"
| "kitchen_step (CallSetOrderReady p) (k, h) = snd (SetOrderReady k p h)"
| "kitchen_step (CallSetOrderEnroute p) (k, h) = (k, snd (SetOrderEnroute k p h))"
| "kitchen_step (CallSetOrderPickedUp p) (k, h) = (k, snd (SetOrderPickedUp k p h))"
| "kitchen_step (CallOptimizePlacement p) (k, h) = (k, snd (optimizePlacement p (shelvesAsc k) h))"

definition kitchen_steps :: "kitchen_call list \<Rightarrow> Kitchen \<times> heap \<Rightarrow> Kitchen \<times> heap" where
  "kitchen_steps cs kh = foldl (\<lambda>st c. kitchen_step c st) kh cs"

text \<open>
  Two kitchen values with the same shelf lists and clock, and under every temperature of
  the index the same shelves, in some order.
\<close>

definition same_shelves :: "Kitchen \<Rightarrow> Kitchen \<Rightarrow> bool" where
  "same_shelves k k' \<longleftrightarrow>
     shelvesAsc k' = shelvesAsc k \<and> shelvesDesc k' = shelvesDesc k \<and>
     kitchen_now k' = kitchen_now k \<and>
     (\<forall>t. map_option mset (supportedIndex k' t) = map_option mset (supportedIndex k t))"

text \<open>
  The occupancy invariant: the counter \<open>numOrders\<close> is the size of the map, and the
  size of the map is at most the capacity.
\<close>

definition occupancy_ok :: "staticShelf \<Rightarrow> bool" where
  "occupancy_ok sh \<longleftrightarrow>
     finite (dom (orders sh)) \<and> numOrders sh = int (card (dom (orders sh))) \<and>
     int (card (dom (orders sh))) \<le> capacity sh"

text \<open>The order has a shelf exactly when its state is \<open>Ready\<close> or \<open>Enroute\<close>.\<close>

definition shelf_iff_active :: "Order \<Rightarrow> bool" where
  "shelf_iff_active ordr \<longleftrightarrow>
     (shelf ordr \<noteq> None) = (state ordr = Ready \<or> state ordr = Enroute)"

text \<open>
  A shelf is eligible for an order when it supports the order's temperature, has free
  capacity and, if the order is on a shelf, has a strictly smaller decay rate than that
  shelf. An order is only on its own shelf when no other shelf's map holds its id.
\<close>

definition eligible :: "heap \<Rightarrow> nat \<Rightarrow> nat \<Rightarrow> bool" where
  "eligible h p s \<longleftrightarrow>
     temp (order_at h p) \<in> set (supported (shelf_at h s)) \<and>
     numOrders (shelf_at h s) < capacity (shelf_at h s) \<and>
     (case shelf (order_at h p) of
        None \<Rightarrow> True
      | Some c \<Rightarrow> decayRate (shelf_at h s) < decayRate (shelf_at h c))"

definition only_on_own_shelf :: "heap \<Rightarrow> nat \<Rightarrow> bool" where
  "only_on_own_shelf h p \<longleftrightarrow>
     (\<forall>s. shelf (order_at h p) \<noteq> Some s \<longrightarrow>
          orders (shelf_at h s) (order_id (order_at h p)) = None)"

section \<open>The kitchen of the placement test\<close>

text \<open>
  The topology of \<open>TestKitchenPlacement\<close>: three shelves for hot orders, of capacity
  one, named bad, good and best. Two orders are made and brought to \<open>Ready\<close> one
  after the other, under a clock that advances two minutes with every reading.
\<close>

definition test_clock :: "nat \<Rightarrow> Time" where
  "test_clock n = 120000000000 * int n"

definition placement_config :: kitchenConfig where
 "placement_config = \<lparr>cfg_RunDecayMinimizer = False, cfg_Topology = [
    \<lparr>cfg_Name = ''bad'', cfg_Capacity = 1, cfg_Supported = [''hot''], cfg_DecayRate = 1, cfg_Type = []\<rparr>,
    \<lparr>cfg_Name = ''good'', cfg_Capacity = 1, cfg_Supported = [''hot''], cfg_DecayRate = 1/2, cfg_Type = []\<rparr>,
    \<lparr>cfg_Name = ''best'', cfg_Capacity = 1, cfg_Supported = [''hot''], cfg_DecayRate = 0, cfg_Type = []\<rparr>]\<rparr>"

definition placement_kitchen :: Kitchen where
  "placement_kitchen = fst (NewKitchen placement_config (empty_heap test_clock))"

definition two_orders :: heap where
  "two_orders =
     snd (NewOrder ''order-2'' ''test2'' ''hot'' 100000000000 (1/5)
       (snd (NewOrder ''order-1'' ''test1'' ''hot'' 100000000000 (1/5)
         (snd (NewKitchen placement_config (empty_heap test_clock))))))"

definition first_ready :: heap where
  "first_ready = snd (snd (CreateOrder placement_kitchen 0 two_orders))"

definition first_trashed :: heap where
  "first_trashed = snd (SetOrderEnroute placement_kitchen 0 first_ready)"

definition both_ready :: heap where
  "both_ready = snd (snd (CreateOrder placement_kitchen 1 first_ready))"

section \<open>Further test kitchens\<close>

text \<open>
  Under a clock that advances one second with every reading: the kitchen of the
  placement test after both orders are \<open>Ready\<close> and the first has been picked up, so
  that the best shelf is free again; and the kitchen of the capacity test with a single
  hot shelf of capacity one, two hot orders and a frozen one.
\<close>

definition second_clock :: "nat \<Rightarrow> Time" where
  "second_clock n = 1000000000 * int n"

definition best_freed :: "Kitchen \<times> heap" where
  "best_freed =
     kitchen_steps
       [CallCreateOrder 0, CallCreateOrder 1, CallSetOrderEnroute 0, CallSetOrderPickedUp 0]
       (fst (NewKitchen placement_config (empty_heap second_clock)),
        snd (NewOrder ''order-2'' ''test2'' ''hot'' 100000000000 (1/5)
          (snd (NewOrder ''order-1'' ''test1'' ''hot'' 100000000000 (1/5)
            (snd (NewKitchen placement_config (empty_heap second_clock)))))))"

definition capacity_config :: kitchenConfig where
  "capacity_config = \<lparr>cfg_RunDecayMinimizer = False, cfg_Topology = [
     \<lparr>cfg_Name = ''hot'', cfg_Capacity = 1, cfg_Supported = [''hot''], cfg_DecayRate = 1,
      cfg_Type = []\<rparr>]\<rparr>"

definition capacity_kitchen :: Kitchen where
  "capacity_kitchen = fst (NewKitchen capacity_config (empty_heap second_clock))"

definition three_orders :: heap where
  "three_orders =
     snd (NewOrder ''order-3'' ''test3'' ''frozen'' 1000000000 (1/5)
       (snd (NewOrder ''order-2'' ''test2'' ''hot'' 1000000000 (1/5)
         (snd (NewOrder ''order-1'' ''test1'' ''hot'' 1000000000 (1/5)
           (snd (NewKitchen capacity_config (empty_heap second_clock))))))))"

definition shelf_taken :: heap where
  "shelf_taken = snd (snd (CreateOrder capacity_kitchen 0 three_orders))"

text \<open>
  \<open>Created\<close> orders that already have a shelf, put there by \<open>SetShelf\<close>: the first
  order of the placement test on the best shelf and on the bad shelf, and the frozen
  order of the capacity test on the hot shelf.
\<close>

definition created_on_best :: heap where
  "created_on_best = snd (SetShelf 0 2 (CreateOrder_created placement_kitchen 0 two_orders))"

definition created_on_bad :: heap where
  "created_on_bad = snd (SetShelf 0 0 (CreateOrder_created placement_kitchen 0 two_orders))"

definition frozen_on_hot :: heap where
  "frozen_on_hot = snd (SetShelf 2 0 (CreateOrder_created capacity_kitchen 2 three_orders))"

section \<open>Evaluation\<close>

lemmas state_defs = Unset_def Created_def Ready_def Enroute_def PickedUp_def Trashed_def

lemma state_distinct [simp]:
  "Unset \<noteq> Created" "Unset \<noteq> Ready" "Unset \<noteq> Enroute"
  "Unset \<noteq> PickedUp" "Unset \<noteq> Trashed" "Created \<noteq> Unset"
  "Created \<noteq> Ready" "Created \<noteq> Enroute" "Created \<noteq> PickedUp"
  "Created \<noteq> Trashed" "Ready \<noteq> Unset" "Ready \<noteq> Created"
  "Ready \<noteq> Enroute" "Ready \<noteq> PickedUp" "Ready \<noteq> Trashed"
  "Enroute \<noteq> Unset" "Enroute \<noteq> Created" "Enroute \<noteq> Ready"
  "Enroute \<noteq> PickedUp" "Enroute \<noteq> Trashed" "PickedUp \<noteq> Unset"
  "PickedUp \<noteq> Created" "PickedUp \<noteq> Ready" "PickedUp \<noteq> Enroute"
  "PickedUp \<noteq> Trashed" "Trashed \<noteq> Unset" "Trashed \<noteq> Created"
  "Trashed \<noteq> Ready" "Trashed \<noteq> Enroute" "Trashed \<noteq> PickedUp"
  by (simp_all add: state_defs)

lemmas model_defs =
  CreateOrder_def CreateOrder_created_def SetOrderReady_def SetOrderEnroute_def
  SetOrderPickedUp_def
  TransitionOrder_def NewOrder_def NewKitchen_def buildTopology_def buildShelf_def
  empty_heap_def NewStaticShelf_def ToLower_def isExpired_def value_def rawValue_def
  decayed_def age_def update_order_def k_now_def call_now_def Temp_def State_def Shelf_def
  Supported_def Decay_def ID_def index_append_def index_lookup_def sort_Slice_def optimizePlacement_def
  SetShelf_def Put_def Remove_def removeOrder_def no_effect_def Sub_def int64_def
  maxDuration_def minDuration_def Let_def

text \<open>The store of the placement test after the first and after the second order.\<close>

lemma first_ready_eval:
  "order_at first_ready 0 =
     \<lparr>order_id = ''order-1'', order_name = ''test1'', temp = ''hot'', shelfLife = 100000000000,
      baseDecayRate = 1/5, state = Ready, prevDecayed = 0, createdAt = 0,
      readyAt = 240000000000, enrouteAt = 0, pickedUpAt = 0, trashedAt = 0, shelf = Some 2,
      placedAt = 120000000000, order_now = test_clock\<rparr>"
  "order_at first_ready (Suc 0) =
     \<lparr>order_id = ''order-2'', order_name = ''test2'', temp = ''hot'', shelfLife = 100000000000,
      baseDecayRate = 1/5, state = Unset, prevDecayed = 0, createdAt = 0,
      readyAt = 0, enrouteAt = 0, pickedUpAt = 0, trashedAt = 0, shelf = None,
      placedAt = 0, order_now = test_clock\<rparr>"
  "shelf_at first_ready 0 =
     \<lparr>name = ''bad'', orders = Map.empty, numOrders = 0, capacity = 1,
      supported = [''hot''], decayRate = 1\<rparr>"
  "shelf_at first_ready (Suc 0) =
     \<lparr>name = ''good'', orders = Map.empty, numOrders = 0, capacity = 1,
      supported = [''hot''], decayRate = 1/2\<rparr>"
  "shelf_at first_ready 2 =
     \<lparr>name = ''best'', orders = [''order-1'' \<mapsto> 0], numOrders = 1, capacity = 1,
      supported = [''hot''], decayRate = 0\<rparr>"
  "ticks first_ready = 3"
  unfolding first_ready_def two_orders_def placement_kitchen_def placement_config_def
  by (simp_all add: model_defs state_defs test_clock_def [abs_def] fun_eq_iff)

lemma first_trashed_state: "state (order_at first_trashed 0) = Trashed"
  unfolding first_trashed_def
  by (simp add: model_defs state_defs first_ready_eval test_clock_def)

lemma both_ready_eval:
  "order_at both_ready (Suc 0) =
     \<lparr>order_id = ''order-2'', order_name = ''test2'', temp = ''hot'', shelfLife = 100000000000,
      baseDecayRate = 1/5, state = Ready, prevDecayed = 0, createdAt = 360000000000,
      readyAt = 600000000000, enrouteAt = 0, pickedUpAt = 0, trashedAt = 0, shelf = Some 1,
      placedAt = 480000000000, order_now = test_clock\<rparr>"
  "shelf_at both_ready 0 =
     \<lparr>name = ''bad'', orders = Map.empty, numOrders = 0, capacity = 1,
      supported = [''hot''], decayRate = 1\<rparr>"
  "shelf_at both_ready (Suc 0) =
     \<lparr>name = ''good'', orders = [''order-2'' \<mapsto> 1], numOrders = 1, capacity = 1,
      supported = [''hot''], decayRate = 1/2\<rparr>"
  "shelf_at both_ready 2 =
     \<lparr>name = ''best'', orders = [''order-1'' \<mapsto> 0], numOrders = 1, capacity = 1,
      supported = [''hot''], decayRate = 0\<rparr>"
  "ticks both_ready = 6"
  unfolding both_ready_def first_ready_def two_orders_def placement_kitchen_def placement_config_def
  by (simp_all add: model_defs state_defs test_clock_def [abs_def] fun_eq_iff)

section \<open>Shelf occupancy\<close>

lemma Put_occupancy_ok:
  "occupancy_ok (shelf_at h s) \<Longrightarrow> occupancy_ok (shelf_at (snd (Put s p h)) s)"
proof -
  assume ok: "occupancy_ok (shelf_at h s)"
  let ?m = "orders (shelf_at h s)"
  show ?thesis
  proof (cases "?m (ID p h) = None \<and> numOrders (shelf_at h s) < capacity (shelf_at h s)")
    case True
    then have "ID p h \<notin> dom ?m"
      by (simp add: domIff)
    with ok have "card (insert (ID p h) (dom ?m)) = Suc (card (dom ?m))"
      by (simp add: occupancy_ok_def)
    with ok True show ?thesis
      by (simp add: Put_def occupancy_ok_def Let_def)
  next
    case False
    with ok show ?thesis
      by (auto simp: Put_def Let_def)
  qed
qed

lemma Remove_occupancy_ok:
  "occupancy_ok (shelf_at h s) \<Longrightarrow> occupancy_ok (shelf_at (snd (Remove s i h)) s)"
proof -
  assume ok: "occupancy_ok (shelf_at h s)"
  let ?m = "orders (shelf_at h s)"
  show ?thesis
  proof (cases "?m i")
    case None
    with ok show ?thesis
      by (simp add: Remove_def Let_def)
  next
    case (Some q)
    then have mem: "i \<in> dom ?m"
      by (simp add: domIff)
    with ok have pos: "0 < card (dom ?m)"
      by (auto simp: occupancy_ok_def card_gt_0_iff)
    from ok mem have "card (dom ?m - {i}) = card (dom ?m) - 1"
      by (simp add: occupancy_ok_def)
    with pos have "int (card (dom ?m - {i})) = int (card (dom ?m)) - 1"
      by simp
    with ok Some show ?thesis
      by (simp add: Remove_def occupancy_ok_def Let_def)
  qed
qed

lemma Put_AtCapacity:
  "capacity (shelf_at h s) \<le> numOrders (shelf_at h s) \<Longrightarrow>
   orders (shelf_at h s) (ID p h) = None \<Longrightarrow> Put s p h = (Some AtCapacity, h)"
  by (simp add: Put_def Let_def)

lemma NewStaticShelf_occupancy_ok:
  "0 \<le> cap \<Longrightarrow> NewStaticShelf nm cap spt rate h = (s, h') \<Longrightarrow> occupancy_ok (shelf_at h' s)"
  by (auto simp: NewStaticShelf_def occupancy_ok_def)

text \<open>
  Claim C7. On a shelf that starts within its capacity, as every shelf that
  \<open>NewStaticShelf\<close> makes with a capacity of at least zero does, every sequence of
  \<open>Put\<close> and \<open>Remove\<close> calls leaves the number of orders at most the capacity. On
  a full shelf, \<open>Put\<close> of an order that is not on it fails with \<open>AtCapacity\<close> and
  changes nothing.
\<close>

theorem shelf_occupancy_never_exceeds_capacity:
  assumes "occupancy_ok (shelf_at h s)"
  shows "int (card (dom (orders (shelf_at (shelf_calls s cs h) s))))
           \<le> capacity (shelf_at (shelf_calls s cs h) s)
         \<and> occupancy_ok (shelf_at (shelf_calls s cs h) s)
         \<and> (\<forall>p. capacity (shelf_at (shelf_calls s cs h) s)
                    \<le> numOrders (shelf_at (shelf_calls s cs h) s)
                \<and> orders (shelf_at (shelf_calls s cs h) s) (ID p (shelf_calls s cs h)) = None
                \<longrightarrow> Put s p (shelf_calls s cs h) = (Some AtCapacity, shelf_calls s cs h))"
proof -
  have inv: "occupancy_ok (shelf_at (shelf_calls s cs h) s)"
    using assms
  proof (induction cs arbitrary: h)
    case Nil
    then show ?case by simp
  next
    case (Cons c cs)
    then show ?case
      by (cases c) (simp_all add: Put_occupancy_ok Remove_occupancy_ok)
  qed
  then show ?thesis
    by (auto simp: occupancy_ok_def Put_AtCapacity)
qed

theorem shelf_occupancy_witness:
  "occupancy_ok (shelf_at first_ready 2)
   \<and> int (card (dom (orders (shelf_at
         (shelf_calls 2 [CallRemove ''order-1'', CallPut 1, CallPut 0] first_ready) 2)))) \<le> 1
   \<and> fst (Put 2 0 (shelf_calls 2 [CallRemove ''order-1'', CallPut 1, CallPut 0] first_ready))
       = Some AtCapacity"
proof -
  let ?cs = "[CallRemove ''order-1'', CallPut 1, CallPut 0]"
  have ok: "occupancy_ok (shelf_at first_ready 2)"
    by (simp add: occupancy_ok_def first_ready_eval)
  have full: "shelf_at (shelf_calls 2 ?cs first_ready) 2 =
     \<lparr>name = ''best'', orders = [''order-2'' \<mapsto> 1], numOrders = 1, capacity = 1,
      supported = [''hot''], decayRate = 0\<rparr>"
    "ID 0 (shelf_calls 2 ?cs first_ready) = ''order-1''"
    by (simp_all add: Put_def Remove_def ID_def first_ready_eval fun_eq_iff)
  from shelf_occupancy_never_exceeds_capacity [OF ok, of ?cs] full ok show ?thesis
    by simp
qed

section \<open>What a call leaves unchanged\<close>

lemma call_now_frame [simp]:
  "fst (call_now p h) = order_now (order_at h p) (ticks h)"
  "order_at (snd (call_now p h)) = order_at h"
  "shelf_at (snd (call_now p h)) = shelf_at h"
  "ticks (snd (call_now p h)) = Suc (ticks h)"
  by (simp_all add: call_now_def)

lemma k_now_frame [simp]:
  "fst (k_now k h) = kitchen_now k (ticks h)"
  "order_at (snd (k_now k h)) = order_at h"
  "shelf_at (snd (k_now k h)) = shelf_at h"
  "ticks (snd (k_now k h)) = Suc (ticks h)"
  by (simp_all add: k_now_def)

lemma update_order_frame [simp]:
  "order_at (update_order p f h) = (order_at h)(p := f (order_at h p))"
  "shelf_at (update_order p f h) = shelf_at h"
  "ticks (update_order p f h) = ticks h"
  by (simp_all add: update_order_def)

lemma age_frame [simp]:
  "order_at (snd (age p h)) = order_at h"
  "shelf_at (snd (age p h)) = shelf_at h"
  by (simp_all add: age_def Let_def case_prod_beta)

lemma rawValue_frame [simp]:
  "order_at (snd (rawValue p h)) = order_at h"
  "shelf_at (snd (rawValue p h)) = shelf_at h"
  by (simp_all add: rawValue_def Let_def case_prod_beta)

lemma decayed_frame [simp]:
  "order_at (snd (decayed p h)) = order_at h"
  "shelf_at (snd (decayed p h)) = shelf_at h"
  by (simp_all add: decayed_def Let_def case_prod_beta split: option.splits)

lemma value_frame [simp]:
  "order_at (snd (value p h)) = order_at h"
  "shelf_at (snd (value p h)) = shelf_at h"
  by (simp_all add: value_def Let_def case_prod_beta)

lemma isExpired_frame [simp]:
  "order_at (snd (isExpired p h)) = order_at h"
  "shelf_at (snd (isExpired p h)) = shelf_at h"
  by (simp_all add: isExpired_def Let_def case_prod_beta)

lemma Put_frame [simp]:
  "order_at (snd (Put s p h)) = order_at h"
  "ticks (snd (Put s p h)) = ticks h"
  by (simp_all add: Put_def Let_def)

lemma Put_error: "fst (Put s p h) = Some e \<Longrightarrow> Put s p h = (Some AtCapacity, h)"
  by (simp add: Put_def Let_def split: if_splits)

lemma Remove_frame [simp]:
  "order_at (snd (Remove s i h)) = order_at h"
  "ticks (snd (Remove s i h)) = ticks h"
  by (simp_all add: Remove_def Let_def)

lemma Remove_orders [simp]:
  "orders (shelf_at (snd (Remove s i h)) s) i = None"
  by (simp add: Remove_def Let_def)

lemma Remove_other [simp]:
  "s' \<noteq> s \<Longrightarrow> shelf_at (snd (Remove s i h)) s' = shelf_at h s'"
  by (simp add: Remove_def Let_def)

lemma Remove_decayRate [simp]:
  "decayRate (shelf_at (snd (Remove s i h)) s') = decayRate (shelf_at h s')"
  by (simp add: Remove_def Let_def)

lemma Put_decayRate [simp]:
  "decayRate (shelf_at (snd (Put s p h)) s') = decayRate (shelf_at h s')"
  by (simp add: Put_def Let_def)

text \<open>
  Claim C5. When the target shelf's \<open>Put\<close> rejects the order, \<open>SetShelf\<close> returns
  that error and the whole store is as before the call: the order's shelf, \<open>placedAt\<close>
  and \<open>prevDecayed\<close>, and every shelf's map. The only error of \<open>Put\<close> is
  \<open>AtCapacity\<close> (lemma \<open>Put_error\<close>).
\<close>

theorem SetShelf_rejected_changes_nothing:
  "fst (Put s p h) = Some e \<Longrightarrow> SetShelf p s h = (Some e, h)"
  by (frule Put_error) (simp add: SetShelf_def)

theorem SetShelf_rejected_witness:
  "fst (Put 2 1 first_ready) = Some AtCapacity
   \<and> SetShelf 1 2 first_ready = (Some AtCapacity, first_ready)"
proof -
  have rejected: "fst (Put 2 1 first_ready) = Some AtCapacity"
    by (simp add: Put_def ID_def first_ready_eval)
  from SetShelf_rejected_changes_nothing [OF rejected] rejected show ?thesis
    by simp
qed

text \<open>
  Claim C10. A call of \<open>TransitionOrder\<close> on an order whose state is not the expected
  one returns \<open>WrongState\<close> and changes nothing. This check comes first, so the
  terminal-state error is returned exactly when the order is in the expected state and
  that state is \<open>PickedUp\<close> or \<open>Trashed\<close>; with another expected state it can only
  come from the side effect. \<open>SetOrderEnroute\<close> and \<open>SetOrderPickedUp\<close> on an order
  in a terminal state return \<open>WrongState\<close>.
\<close>

theorem TransitionOrder_wrong_state:
  "(state (order_at h p) \<noteq> expectedState \<longrightarrow>
      TransitionOrder p expectedState newState effect h = (Some WrongState, h))
   \<and> (state (order_at h p) = expectedState
        \<and> (expectedState = PickedUp \<or> expectedState = Trashed) \<longrightarrow>
      TransitionOrder p expectedState newState effect h = (Some Terminal, h))
   \<and> (expectedState \<noteq> PickedUp \<and> expectedState \<noteq> Trashed
        \<and> (\<forall>q g. fst (effect q g) \<noteq> Some Terminal) \<longrightarrow>
      fst (TransitionOrder p expectedState newState effect h) \<noteq> Some Terminal)
   \<and> (state (order_at h p) = PickedUp \<or> state (order_at h p) = Trashed \<longrightarrow>
      SetOrderEnroute k p h = (Some WrongState, h)
      \<and> SetOrderPickedUp k p h = (Some WrongState, h))"
  by (auto simp: TransitionOrder_def SetOrderEnroute_def SetOrderPickedUp_def
      Let_def case_prod_beta state_defs)

theorem TransitionOrder_wrong_state_witness:
  "TransitionOrder 0 Enroute PickedUp no_effect first_ready = (Some WrongState, first_ready)
   \<and> TransitionOrder 0 Trashed Ready no_effect first_trashed = (Some Terminal, first_trashed)
   \<and> fst (TransitionOrder 0 Ready Enroute no_effect first_ready) \<noteq> Some Terminal
   \<and> SetOrderEnroute placement_kitchen 0 first_trashed = (Some WrongState, first_trashed)
   \<and> SetOrderPickedUp placement_kitchen 0 first_trashed = (Some WrongState, first_trashed)"
proof -
  have ready: "state (order_at first_ready 0) \<noteq> Enroute"
    by (simp add: first_ready_eval state_defs)
  have quiet: "\<forall>q g. fst (no_effect q g) \<noteq> Some Terminal"
    by (simp add: no_effect_def)
  have live: "Ready \<noteq> PickedUp \<and> Ready \<noteq> Trashed"
    by (simp add: state_defs)
  from TransitionOrder_wrong_state [of first_ready 0 Enroute PickedUp no_effect placement_kitchen]
       TransitionOrder_wrong_state [of first_trashed 0 Trashed Ready no_effect placement_kitchen]
       TransitionOrder_wrong_state [of first_ready 0 Ready Enroute no_effect placement_kitchen]
       ready quiet live first_trashed_state
  show ?thesis
    by simp
qed

section \<open>Moving an order between shelves\<close>

lemma removeOrder_None: "shelf (order_at h p) = None \<Longrightarrow> removeOrder p h = h"
  by (simp add: removeOrder_def)

lemma removeOrder_Some:
  assumes "shelf (order_at h p) = Some a"
  shows "order_at (removeOrder p h) =
           (order_at h)(p := (order_at h p)
              \<lparr>prevDecayed := prevDecayed (order_at h p) + decayRate (shelf_at h a) *
                  real_of_int (Sub (order_now (order_at h p) (ticks h)) (placedAt (order_at h p))),
               shelf := None\<rparr>)"
    and "orders (shelf_at (removeOrder p h) a) (order_id (order_at h p)) = None"
    and "ticks (removeOrder p h) = Suc (ticks h)"
  using assms
  by (simp_all add: removeOrder_def Let_def case_prod_beta Decay_def ID_def fun_eq_iff)

lemma removeOrder_shelf [simp]: "shelf (order_at (removeOrder p h) p) = None"
  by (cases "shelf (order_at h p)") (simp_all add: removeOrder_None removeOrder_Some)

lemma removeOrder_decayRate [simp]:
  "decayRate (shelf_at (removeOrder p h) s) = decayRate (shelf_at h s)"
  by (simp add: removeOrder_def Let_def case_prod_beta split: option.splits)

lemma removeOrder_other_order [simp]:
  "q \<noteq> p \<Longrightarrow> order_at (removeOrder p h) q = order_at h q"
  by (simp add: removeOrder_def Let_def case_prod_beta split: option.splits)

lemma removeOrder_state [simp]:
  "state (order_at (removeOrder p h) q) = state (order_at h q)"
  by (simp add: removeOrder_def Let_def case_prod_beta split: option.splits)

text \<open>
  Claim C4. After a successful \<open>SetShelf p s\<close> the order's shelf is \<open>s\<close> and
  \<open>placedAt\<close> is the clock reading taken for it. If the order was on a shelf \<open>a\<close>,
  \<open>prevDecayed\<close> has grown by the decay rate of \<open>a\<close> times the duration from the old
  \<open>placedAt\<close> to the clock reading taken in \<open>removeOrder\<close>, and the order's id is no
  longer in the map of \<open>a\<close>. If the order was on no shelf, \<open>prevDecayed\<close> is as before.
  The clock is read once in \<open>removeOrder\<close> and once more for \<open>placedAt\<close>.
\<close>

theorem SetShelf_success:
  assumes "fst (SetShelf p s h) = None"
  shows "shelf (order_at (snd (SetShelf p s h)) p) = Some s
         \<and> (case shelf (order_at h p) of
              None \<Rightarrow>
                placedAt (order_at (snd (SetShelf p s h)) p) = order_now (order_at h p) (ticks h)
                \<and> prevDecayed (order_at (snd (SetShelf p s h)) p) = prevDecayed (order_at h p)
            | Some a \<Rightarrow>
                placedAt (order_at (snd (SetShelf p s h)) p)
                  = order_now (order_at h p) (Suc (ticks h))
                \<and> prevDecayed (order_at (snd (SetShelf p s h)) p)
                  = prevDecayed (order_at h p) + decayRate (shelf_at h a) *
                      real_of_int (Sub (order_now (order_at h p) (ticks h))
                                       (placedAt (order_at h p)))
                \<and> orders (shelf_at (snd (SetShelf p s h)) a) (order_id (order_at h p)) = None)"
proof -
  from assms have put: "fst (Put s p h) = None"
    by (simp add: SetShelf_def case_prod_beta split: if_splits)
  let ?h1 = "snd (Put s p h)"
  have res: "snd (SetShelf p s h) =
      update_order p (\<lambda>ordr. ordr\<lparr>placedAt := order_now (order_at (removeOrder p ?h1) p) (ticks (removeOrder p ?h1))\<rparr>)
        (snd (call_now p (update_order p (\<lambda>ordr. ordr\<lparr>shelf := Some s\<rparr>) (removeOrder p ?h1))))"
    using put by (simp add: SetShelf_def case_prod_beta Let_def)
  show ?thesis
  proof (cases "shelf (order_at h p)")
    case None
    then have "removeOrder p ?h1 = ?h1"
      by (simp add: removeOrder_None)
    with None show ?thesis
      by (simp add: res)
  next
    case (Some a)
    then have sh: "shelf (order_at ?h1 p) = Some a"
      by simp
    show ?thesis
      using Some removeOrder_Some [OF sh]
      by (simp add: res)
  qed
qed

theorem SetShelf_success_witness:
  "fst (SetShelf 1 0 both_ready) = None
   \<and> shelf (order_at (snd (SetShelf 1 0 both_ready)) 1) = Some 0
   \<and> placedAt (order_at (snd (SetShelf 1 0 both_ready)) 1) = 840000000000
   \<and> prevDecayed (order_at (snd (SetShelf 1 0 both_ready)) 1) = 120000000000
   \<and> orders (shelf_at (snd (SetShelf 1 0 both_ready)) 1) ''order-2'' = None"
proof -
  have ok: "fst (SetShelf 1 0 both_ready) = None"
    by (simp add: SetShelf_def Put_def ID_def both_ready_eval case_prod_beta Let_def)
  from SetShelf_success [OF ok] ok show ?thesis
    by (simp add: both_ready_eval test_clock_def Sub_def maxDuration_def minDuration_def)
qed

section \<open>Expired orders\<close>

lemma isExpired_iff:
  "fst (isExpired p h) \<longleftrightarrow>
     state (order_at h p) \<noteq> Unset \<and> state (order_at h p) \<noteq> Created \<and>
     state (order_at h p) \<noteq> PickedUp \<and> state (order_at h p) \<noteq> Trashed \<and>
     fst (value p h) \<le> 0"
  by (simp add: isExpired_def Let_def case_prod_beta)

lemma isExpired_Ready_Enroute:
  "state (order_at h p) = Ready \<or> state (order_at h p) = Enroute \<Longrightarrow>
   fst (isExpired p h) \<longleftrightarrow> fst (value p h) \<le> 0"
  by (auto simp: isExpired_iff state_defs)

text \<open>
  Claim C1. An order in the expected state, \<open>Ready\<close> or \<open>Enroute\<close>, whose value at
  the call is at most zero: \<open>TransitionOrder\<close> returns \<open>Expired\<close>, the state is
  \<open>Trashed\<close>, \<open>trashedAt\<close> is the next clock reading, the shelf reference is null, the
  decay on the shelf it was on is added to \<open>prevDecayed\<close> and its id is removed from
  that shelf's map. The new state and the side effect passed in play no part: the
  result is the same for any other.
\<close>

theorem TransitionOrder_expired:
  assumes "state (order_at h p) = expectedState"
    and "state (order_at h p) = Ready \<or> state (order_at h p) = Enroute"
    and "fst (value p h) \<le> 0"
  shows "fst (TransitionOrder p expectedState newState effect h) = Some Expired
    \<and> state (order_at (snd (TransitionOrder p expectedState newState effect h)) p) = Trashed
    \<and> trashedAt (order_at (snd (TransitionOrder p expectedState newState effect h)) p)
        = order_now (order_at h p) (ticks (snd (isExpired p h)))
    \<and> shelf (order_at (snd (TransitionOrder p expectedState newState effect h)) p) = None
    \<and> (case shelf (order_at h p) of
          None \<Rightarrow>
            prevDecayed (order_at (snd (TransitionOrder p expectedState newState effect h)) p)
              = prevDecayed (order_at h p)
        | Some a \<Rightarrow>
            prevDecayed (order_at (snd (TransitionOrder p expectedState newState effect h)) p)
              = prevDecayed (order_at h p) + decayRate (shelf_at h a) *
                  real_of_int (Sub (order_now (order_at h p) (Suc (ticks (snd (isExpired p h)))))
                                   (placedAt (order_at h p)))
            \<and> orders (shelf_at (snd (TransitionOrder p expectedState newState effect h)) a)
                 (order_id (order_at h p)) = None)
    \<and> (\<forall>newState' effect'.
          TransitionOrder p expectedState newState' effect' h
            = TransitionOrder p expectedState newState effect h)"
proof -
  from assms(2) have live: "state (order_at h p) \<noteq> PickedUp" "state (order_at h p) \<noteq> Trashed"
    by (auto simp: state_defs)
  from assms(2,3) have expired: "fst (isExpired p h)"
    by (simp add: isExpired_Ready_Enroute)
  let ?h1 = "snd (isExpired p h)"
  let ?h4 = "update_order p (\<lambda>ordr. ordr\<lparr>trashedAt := order_now (order_at h p) (ticks ?h1)\<rparr>)
               (snd (call_now p (update_order p (\<lambda>ordr. ordr\<lparr>state := Trashed\<rparr>) ?h1)))"
  have res: "TransitionOrder p expectedState n e h = (Some Expired, removeOrder p ?h4)" for n e
    using assms(1) live expired
    by (simp add: TransitionOrder_def Let_def case_prod_beta)
  show ?thesis
  proof (cases "shelf (order_at h p)")
    case None
    then have "shelf (order_at ?h4 p) = None"
      by simp
    then have "removeOrder p ?h4 = ?h4"
      by (rule removeOrder_None)
    with None show ?thesis
      by (simp add: res)
  next
    case (Some a)
    then have sh: "shelf (order_at ?h4 p) = Some a"
      by simp
    show ?thesis
      using Some removeOrder_Some [OF sh]
      by (simp add: res)
  qed
qed

theorem TransitionOrder_expired_witness:
  "state (order_at both_ready 1) = Ready
   \<and> fst (value 1 both_ready) \<le> 0
   \<and> fst (TransitionOrder 1 Ready Enroute no_effect both_ready) = Some Expired
   \<and> state (order_at (snd (TransitionOrder 1 Ready Enroute no_effect both_ready)) 1) = Trashed
   \<and> trashedAt (order_at (snd (TransitionOrder 1 Ready Enroute no_effect both_ready)) 1)
       = 1080000000000
   \<and> shelf (order_at (snd (TransitionOrder 1 Ready Enroute no_effect both_ready)) 1) = None
   \<and> prevDecayed (order_at (snd (TransitionOrder 1 Ready Enroute no_effect both_ready)) 1)
       = 360000000000
   \<and> orders (shelf_at (snd (TransitionOrder 1 Ready Enroute no_effect both_ready)) 1)
        ''order-2'' = None"
proof -
  have st: "state (order_at both_ready 1) = Ready"
    by (simp add: both_ready_eval)
  have val: "fst (value 1 both_ready) \<le> 0"
    by (simp add: model_defs state_defs both_ready_eval test_clock_def case_prod_beta)
  have tk: "ticks (snd (isExpired 1 both_ready)) = 9"
    by (simp add: model_defs state_defs both_ready_eval test_clock_def case_prod_beta)
  from TransitionOrder_expired [OF st _ val, of Enroute no_effect] st val tk show ?thesis
    by (simp add: both_ready_eval test_clock_def Sub_def maxDuration_def minDuration_def)
qed

section \<open>The kitchen's fields\<close>

lemma mset_sift [simp]: "mset (sift lt x ys) = add_mset x (mset ys)"
  by (induction ys) simp_all

lemma mset_foldl_sift: "mset (foldl (\<lambda>acc x. sift lt x acc) acc xs) = mset acc + mset xs"
  by (induction xs arbitrary: acc) simp_all

lemma mset_sort_Slice [simp]: "mset (sort_Slice lt xs) = mset xs"
  by (simp add: sort_Slice_def mset_foldl_sift)

lemma set_sort_Slice [simp]: "set (sort_Slice lt xs) = set xs"
  by (metis mset_sort_Slice set_mset_mset)

lemma set_sift [simp]: "set (sift lt x ys) = insert x (set ys)"
  by (metis mset_sift set_mset_mset set_mset_add_mset_insert)

lemma sorted_sift:
  fixes key :: "'a \<Rightarrow> 'b::linorder"
  shows "sorted_wrt (\<lambda>a b. key b \<le> key a) ys \<Longrightarrow>
         sorted_wrt (\<lambda>a b. key b \<le> key a) (sift (\<lambda>a b. key a < key b) x ys)"
  by (induction ys) auto

lemma sorted_foldl_sift:
  fixes key :: "'a \<Rightarrow> 'b::linorder"
  shows "sorted_wrt (\<lambda>a b. key b \<le> key a) acc \<Longrightarrow>
         sorted_wrt (\<lambda>a b. key b \<le> key a) (foldl (\<lambda>acc x. sift (\<lambda>a b. key a < key b) x acc) acc xs)"
  by (induction xs arbitrary: acc) (simp_all add: sorted_sift)

lemma sorted_sort_Slice:
  fixes key :: "'a \<Rightarrow> 'b::linorder"
  shows "sorted_wrt (\<lambda>a b. key a \<le> key b) (sort_Slice (\<lambda>a b. key a < key b) xs)"
proof -
  have "sorted_wrt (\<lambda>a b. key b \<le> key a) (foldl (\<lambda>acc x. sift (\<lambda>a b. key a < key b) x acc) [] xs)"
    by (rule sorted_foldl_sift) simp
  then show ?thesis
    by (simp add: sort_Slice_def sorted_wrt_rev)
qed

lemma SetOrderReady_kitchen:
  "fst (snd (SetOrderReady k p h)) =
     (case supportedIndex k (Temp p h) of
        None \<Rightarrow> k
      | Some spt \<Rightarrow>
          k\<lparr>supportedIndex := (supportedIndex k)
               (Temp p h \<mapsto> sort_Slice (\<lambda>a b. Decay a h < Decay b h) spt)\<rparr>)"
  by (simp add: SetOrderReady_def Let_def case_prod_beta split: option.splits)

lemma same_shelves_refl [simp]: "same_shelves k k"
  by (simp add: same_shelves_def)

lemma same_shelves_trans: "same_shelves k k' \<Longrightarrow> same_shelves k' k'' \<Longrightarrow> same_shelves k k''"
  by (simp add: same_shelves_def)

lemma SetOrderReady_same_shelves: "same_shelves k (fst (snd (SetOrderReady k p h)))"
  by (auto simp: SetOrderReady_kitchen same_shelves_def split: option.splits)

lemma CreateOrder_same_shelves: "same_shelves k (fst (snd (CreateOrder k p h)))"
  by (simp add: CreateOrder_def case_prod_beta SetOrderReady_same_shelves)

lemma kitchen_step_same_shelves: "same_shelves (fst kh) (fst (kitchen_step c kh))"
  by (cases c; cases kh) (simp_all add: SetOrderReady_same_shelves CreateOrder_same_shelves)

lemma kitchen_steps_same_shelves: "same_shelves (fst kh) (fst (kitchen_steps cs kh))"
  unfolding kitchen_steps_def
proof (induction cs arbitrary: kh)
  case Nil
  show ?case by simp
next
  case (Cons c cs)
  have "same_shelves (fst kh) (fst (kitchen_step c kh))"
    by (rule kitchen_step_same_shelves)
  moreover have "same_shelves (fst (kitchen_step c kh))
      (fst (foldl (\<lambda>st c. kitchen_step c st) (kitchen_step c kh) cs))"
    by (rule Cons.IH)
  ultimately show ?case
    by (auto intro: same_shelves_trans)
qed

text \<open>
  Claim C8, as amended. No sequence of kitchen calls changes \<open>shelvesAsc\<close>,
  \<open>shelvesDesc\<close> or \<open>now\<close>, and \<open>supportedIndex\<close> keeps its keys and, under each
  key, the same shelves. \<open>SetOrderReady\<close> sorts the list under the order's temperature
  in place, ascending by decay rate: the list it leaves is a sorted permutation of the
  one it found.
\<close>

theorem kitchen_fields_after_construction:
  "same_shelves k (fst (kitchen_steps cs (k, h)))
   \<and> (case supportedIndex k (Temp p h) of
        None \<Rightarrow> supportedIndex (fst (snd (SetOrderReady k p h))) = supportedIndex k
      | Some spt \<Rightarrow>
          supportedIndex (fst (snd (SetOrderReady k p h)))
            = (supportedIndex k)(Temp p h \<mapsto> sort_Slice (\<lambda>a b. Decay a h < Decay b h) spt)
          \<and> mset (sort_Slice (\<lambda>a b. Decay a h < Decay b h) spt) = mset spt
          \<and> sorted_wrt (\<lambda>a b. Decay a h \<le> Decay b h)
               (sort_Slice (\<lambda>a b. Decay a h < Decay b h) spt))"
  using kitchen_steps_same_shelves [of "(k, h)" cs]
  by (simp add: SetOrderReady_kitchen sorted_sort_Slice split: option.splits)

text \<open>
  Claim C8, as stated, fails: in the kitchen of the placement test the index lists the
  hot shelves as configured (bad, good, best); after \<open>SetOrderReady\<close> on a \<open>Created\<close>
  order it lists them best, good, bad.
\<close>

theorem supportedIndex_reordered:
  "supportedIndex placement_kitchen ''hot'' = Some [0, 1, 2]
   \<and> state (order_at (CreateOrder_created placement_kitchen 0 two_orders) 0) = Created
   \<and> supportedIndex (fst (snd (SetOrderReady placement_kitchen 0
         (CreateOrder_created placement_kitchen 0 two_orders)))) ''hot''
       = Some [2, 1, 0]"
  unfolding two_orders_def placement_kitchen_def placement_config_def
  by (simp add: SetOrderReady_kitchen model_defs state_defs)

section \<open>Building the topology\<close>

text \<open>
  Only the default branch of \<open>buildShelf\<close> builds a shelf. The index \<open>NewKitchen\<close>
  returns has an entry for a temperature exactly when a shelf it built supports it, and
  the entry lists those shelves.
\<close>

lemma buildShelf_static:
  "ToLower (cfg_Type c) = ''static'' \<Longrightarrow> buildShelf c h = (None, h)"
  by (simp add: buildShelf_def)

lemma buildShelf_default:
  assumes "ToLower (cfg_Type c) \<noteq> ''static''"
  shows "fst (buildShelf c h) = Some (shelf_count h)"
    and "shelf_at (snd (buildShelf c h)) =
           (shelf_at h)(shelf_count h :=
              \<lparr>name = cfg_Name c, orders = Map.empty, numOrders = 0,
               capacity = cfg_Capacity c, supported = cfg_Supported c,
               decayRate = cfg_DecayRate c\<rparr>)"
    and "shelf_count (snd (buildShelf c h)) = Suc (shelf_count h)"
  using assms by (simp_all add: buildShelf_def NewStaticShelf_def)

lemma index_lookup_foldl_index_append:
  "index_lookup (foldl (index_append s) index ts) t
     = index_lookup index t @ replicate (count_list ts t) s"
proof (induction ts arbitrary: index)
  case Nil
  show ?case by simp
next
  case (Cons a ts)
  have "index_lookup (index_append s index a) t
          = (if t = a then index_lookup index t @ [s] else index_lookup index t)"
    by (simp add: index_append_def index_lookup_def)
  then show ?case
    by (simp add: Cons.IH replicate_app_Cons_same)
qed

lemma foldl_index_append_None:
  "foldl (index_append s) index ts t = None \<longleftrightarrow> index t = None \<and> t \<notin> set ts"
proof (induction ts arbitrary: index)
  case Nil
  show ?case by simp
next
  case (Cons a ts)
  have "index_append s index a t = None \<longleftrightarrow> index t = None \<and> t \<noteq> a"
    by (simp add: index_append_def)
  then show ?case
    by (auto simp: Cons.IH)
qed

lemma index_of_step:
  assumes inv: "index_of h shelves index"
    and ty: "ToLower (cfg_Type c) \<noteq> ''static''"
  shows "index_of (snd (buildShelf c h)) (shelves @ [shelf_count h])
           (foldl (index_append (shelf_count h)) index
              (Supported (shelf_count h) (snd (buildShelf c h))))"
proof -
  let ?s = "shelf_count h"
  let ?h1 = "snd (buildShelf c h)"
  note b = buildShelf_default [OF ty, of h]
  have new: "Supported ?s ?h1 = cfg_Supported c"
    by (simp add: Supported_def b(2))
  have old: "supported (shelf_at ?h1 s) = supported (shelf_at h s)" if "s \<in> set shelves" for s
  proof -
    from inv that have "s \<noteq> ?s"
      by (auto simp: index_of_def)
    then show ?thesis
      by (simp add: b(2))
  qed
  have fresh: "?s \<notin> set shelves"
    using inv by (auto simp: index_of_def)
  have bound: "\<forall>s \<in> set (shelves @ [?s]). s < shelf_count ?h1"
    using inv by (auto simp: b(3) index_of_def)
  have sets: "set (index_lookup (foldl (index_append ?s) index (cfg_Supported c)) t)
      = {s \<in> set (shelves @ [?s]). t \<in> set (supported (shelf_at ?h1 s))}" for t
  proof -
    from inv have "set (index_lookup index t)
        = {s \<in> set shelves. t \<in> set (supported (shelf_at h s))}"
      by (simp add: index_of_def)
    also have "\<dots> = {s \<in> set shelves. t \<in> set (supported (shelf_at ?h1 s))}"
      using old by auto
    finally have lhs: "set (index_lookup index t)
        = {s \<in> set shelves. t \<in> set (supported (shelf_at ?h1 s))}" .
    have rep: "set (replicate (count_list (cfg_Supported c) t) ?s)
        = (if t \<in> set (cfg_Supported c) then {?s} else {})"
      by (simp add: set_replicate_conv_if count_list_0_iff)
    have sup: "supported (shelf_at ?h1 ?s) = cfg_Supported c"
      by (simp add: b(2))
    show ?thesis
      using fresh by (auto simp: index_lookup_foldl_index_append lhs rep sup)
  qed
  have nonempty: "foldl (index_append ?s) index (cfg_Supported c) t \<noteq> Some []" for t
  proof
    assume e: "foldl (index_append ?s) index (cfg_Supported c) t = Some []"
    then have "index_lookup (foldl (index_append ?s) index (cfg_Supported c)) t = []"
      by (simp add: index_lookup_def)
    then have "index_lookup index t = []" and "t \<notin> set (cfg_Supported c)"
      by (simp_all add: index_lookup_foldl_index_append count_list_0_iff)
    moreover from e have "index t \<noteq> None \<or> t \<in> set (cfg_Supported c)"
      using foldl_index_append_None [of ?s index "cfg_Supported c" t] by auto
    ultimately have "index t = Some []"
      by (auto simp: index_lookup_def)
    with inv show False
      by (simp add: index_of_def)
  qed
  from bound sets nonempty show ?thesis
    unfolding index_of_def new by blast
qed

lemma buildTopology_loop_index_of:
  "index_of h shelves index \<Longrightarrow>
   buildTopology_loop cs shelves index h = ((shelves', index'), h') \<Longrightarrow>
   index_of h' shelves' index'"
proof (induction cs arbitrary: shelves index h)
  case Nil
  then show ?case by simp
next
  case (Cons c cs)
  show ?case
  proof (cases "ToLower (cfg_Type c) = ''static''")
    case True
    with Cons.prems Cons.IH [of h shelves index] show ?thesis
      by (simp add: buildShelf_static)
  next
    case False
    let ?s = "shelf_count h"
    let ?h1 = "snd (buildShelf c h)"
    let ?index1 = "foldl (index_append ?s) index (Supported ?s ?h1)"
    have "fst (buildShelf c h) = Some ?s"
      using False by (rule buildShelf_default)
    then have step: "buildTopology_loop (c # cs) shelves index h =
        buildTopology_loop cs (shelves @ [?s]) ?index1 ?h1"
      by (cases "buildShelf c h") simp
    have "index_of ?h1 (shelves @ [?s]) ?index1"
      using Cons.prems(1) False by (rule index_of_step)
    from Cons.IH [OF this] Cons.prems(2) [unfolded step] show ?thesis
      by simp
  qed
qed

lemma NewKitchen_index:
  assumes "NewKitchen cfg h = (k, h')"
  shows "supportedIndex k t = None \<longleftrightarrow>
           (\<forall>s \<in> set (shelvesAsc k). t \<notin> set (supported (shelf_at h' s)))"
    and "supportedIndex k t = Some l \<Longrightarrow>
           l \<noteq> [] \<and> set l = {s \<in> set (shelvesAsc k). t \<in> set (supported (shelf_at h' s))}"
proof -
  obtain shelves index where bt: "buildTopology cfg h = ((shelves, index), h')"
    and k: "k = \<lparr>shelvesAsc = sort_Slice (\<lambda>a b. Decay a h' < Decay b h') shelves,
                 shelvesDesc = sort_Slice (\<lambda>a b. Decay a h' > Decay b h') shelves,
                 supportedIndex = index, kitchen_now = wall_clock h'\<rparr>"
    using assms by (auto simp: NewKitchen_def Let_def split: prod.splits)
  have "index_of h [] Map.empty"
    by (simp add: index_of_def index_lookup_def)
  from buildTopology_loop_index_of [OF this bt [unfolded buildTopology_def]]
  have sets: "set (index_lookup index t)
      = {s \<in> set shelves. t \<in> set (supported (shelf_at h' s))}"
    and nonempty: "index t \<noteq> Some []"
    by (simp_all add: index_of_def)
  show "supportedIndex k t = None \<longleftrightarrow>
           (\<forall>s \<in> set (shelvesAsc k). t \<notin> set (supported (shelf_at h' s)))"
  proof (cases "index t")
    case None
    with sets show ?thesis
      by (auto simp: k index_lookup_def)
  next
    case (Some l)
    with nonempty have "set l \<noteq> {}"
      by auto
    with Some sets show ?thesis
      by (auto simp: k index_lookup_def)
  qed
  show "l \<noteq> [] \<and> set l = {s \<in> set (shelvesAsc k). t \<in> set (supported (shelf_at h' s))}"
    if "supportedIndex k t = Some l"
    using sets nonempty that by (auto simp: k index_lookup_def)
qed

text \<open>
  Claim C9 against the code: a descriptor of type \<open>static\<close> builds no shelf. The kitchen
  made from a topology of one such descriptor has no shelf in \<open>shelvesAsc\<close> or
  \<open>shelvesDesc\<close> and no entry in the index.
\<close>

theorem static_shelf_not_built:
  "buildShelf \<lparr>cfg_Name = ''hot'', cfg_Capacity = 1, cfg_Supported = [''hot''],
                cfg_DecayRate = 1, cfg_Type = ''static''\<rparr> h = (None, h)
   \<and> shelvesAsc (fst (NewKitchen \<lparr>cfg_RunDecayMinimizer = False, cfg_Topology =
        [\<lparr>cfg_Name = ''hot'', cfg_Capacity = 1, cfg_Supported = [''hot''],
          cfg_DecayRate = 1, cfg_Type = ''static''\<rparr>]\<rparr> h)) = []
   \<and> shelvesDesc (fst (NewKitchen \<lparr>cfg_RunDecayMinimizer = False, cfg_Topology =
        [\<lparr>cfg_Name = ''hot'', cfg_Capacity = 1, cfg_Supported = [''hot''],
          cfg_DecayRate = 1, cfg_Type = ''static''\<rparr>]\<rparr> h)) = []
   \<and> supportedIndex (fst (NewKitchen \<lparr>cfg_RunDecayMinimizer = False, cfg_Topology =
        [\<lparr>cfg_Name = ''hot'', cfg_Capacity = 1, cfg_Supported = [''hot''],
          cfg_DecayRate = 1, cfg_Type = ''static''\<rparr>]\<rparr> h)) ''hot'' = None"
  by (simp add: buildShelf_def NewKitchen_def buildTopology_def ToLower_def sort_Slice_def)

section \<open>Placement\<close>

lemma SetShelf_failed: "fst (SetShelf p s h) \<noteq> None \<Longrightarrow> snd (SetShelf p s h) = h"
  by (auto simp: SetShelf_def case_prod_beta Let_def dest: Put_error split: if_splits)

lemma SetShelf_placed:
  "fst (SetShelf p s h) = None \<Longrightarrow> shelf (order_at (snd (SetShelf p s h)) p) = Some s"
  by (simp add: SetShelf_def case_prod_beta Let_def split: if_splits)

lemma SetShelf_decayRate [simp]:
  "decayRate (shelf_at (snd (SetShelf p s h)) x) = decayRate (shelf_at h x)"
  by (simp add: SetShelf_def case_prod_beta Let_def)

lemma SetShelf_state [simp]:
  "state (order_at (snd (SetShelf p s h)) q) = state (order_at h q)"
  by (simp add: SetShelf_def case_prod_beta Let_def)

lemma optimizePlacement_supported_result:
  "optimizePlacement_supported p cur ty s spts h =
     (if ty \<in> set spts \<and> cur \<noteq> Some s \<and>
         (case cur of None \<Rightarrow> True | Some c \<Rightarrow> \<not> Decay c h \<le> Decay s h) \<and>
         fst (SetShelf p s h) = None
      then (True, snd (SetShelf p s h)) else (False, h))"
proof (induction spts)
  case Nil
  show ?case by simp
next
  case (Cons x xs)
  show ?case
  proof (cases "fst (SetShelf p s h) = None")
    case True
    with Cons show ?thesis
      by (auto simp: case_prod_beta split: option.splits)
  next
    case False
    then have "snd (SetShelf p s h) = h"
      by (rule SetShelf_failed)
    with False Cons show ?thesis
      by (auto simp: case_prod_beta split: option.splits)
  qed
qed

lemma optimizePlacement_shelves_result:
  "optimizePlacement_shelves p cur ty cands h =
     (case find (accepts p cur ty h) cands of
        None \<Rightarrow> (False, h)
      | Some s \<Rightarrow> (True, snd (SetShelf p s h)))"
  by (induction cands)
     (simp_all add: optimizePlacement_supported_result accepts_def Supported_def)

lemma TransitionOrder_no_effect_shelf:
  "shelf (order_at (snd (TransitionOrder p e n no_effect h)) p) = None
   \<or> shelf (order_at (snd (TransitionOrder p e n no_effect h)) p) = shelf (order_at h p)"
  by (simp add: TransitionOrder_def no_effect_def case_prod_beta Let_def)

lemma TransitionOrder_no_effect_decayRate [simp]:
  "decayRate (shelf_at (snd (TransitionOrder p e n no_effect h)) x) = decayRate (shelf_at h x)"
  by (simp add: TransitionOrder_def no_effect_def case_prod_beta Let_def)

lemma optimizePlacement_decayRate [simp]:
  "decayRate (shelf_at (snd (optimizePlacement p cands h)) x) = decayRate (shelf_at h x)"
  by (simp add: optimizePlacement_def optimizePlacement_shelves_result case_prod_beta Let_def
      split: option.splits)

lemma optimizePlacement_cases:
  "optimizePlacement p cands h =
     (if fst (isExpired p h)
      then (False, snd (TransitionOrder p (state (order_at h p)) Trashed no_effect
                          (snd (isExpired p h))))
      else case find (accepts p (shelf (order_at h p)) (temp (order_at h p))
                        (snd (isExpired p h))) cands of
             None \<Rightarrow> (False, snd (isExpired p h))
           | Some s \<Rightarrow> (True, snd (SetShelf p s (snd (isExpired p h)))))"
  by (simp add: optimizePlacement_def optimizePlacement_shelves_result case_prod_beta Let_def
      State_def Shelf_def Temp_def)

text \<open>
  Claim C6. For an order on a shelf \<open>c\<close>: when \<open>optimizePlacement\<close> returns true,
  the order is on a candidate other than \<open>c\<close> that supports its temperature and has a
  strictly smaller decay rate than \<open>c\<close>; when it returns false, the order is still on
  \<open>c\<close> or, expired and trashed, on no shelf. Decay rates of shelves do not change, so
  the decay rate of the shelf holding the order does not increase.
\<close>

theorem optimizePlacement_strictly_better:
  assumes "shelf (order_at h p) = Some c"
  shows "(fst (optimizePlacement p cands h) \<longrightarrow>
            (\<exists>s \<in> set cands.
               shelf (order_at (snd (optimizePlacement p cands h)) p) = Some s
               \<and> s \<noteq> c
               \<and> temp (order_at h p) \<in> set (supported (shelf_at h s))
               \<and> decayRate (shelf_at h s) < decayRate (shelf_at h c)))
       \<and> (\<not> fst (optimizePlacement p cands h) \<longrightarrow>
            shelf (order_at (snd (optimizePlacement p cands h)) p) = Some c
            \<or> shelf (order_at (snd (optimizePlacement p cands h)) p) = None)
       \<and> (\<forall>s. decayRate (shelf_at (snd (optimizePlacement p cands h)) s)
                 = decayRate (shelf_at h s))
       \<and> (\<forall>s. shelf (order_at (snd (optimizePlacement p cands h)) p) = Some s \<longrightarrow>
                 decayRate (shelf_at (snd (optimizePlacement p cands h)) s)
                   \<le> decayRate (shelf_at h c))"
proof -
  let ?h1 = "snd (isExpired p h)"
  let ?acc = "accepts p (Some c) (temp (order_at h p)) ?h1"
  have placed: "fst (optimizePlacement p cands h) \<Longrightarrow>
      \<exists>s \<in> set cands. shelf (order_at (snd (optimizePlacement p cands h)) p) = Some s
         \<and> s \<noteq> c \<and> temp (order_at h p) \<in> set (supported (shelf_at h s))
         \<and> decayRate (shelf_at h s) < decayRate (shelf_at h c)"
  proof -
    assume "fst (optimizePlacement p cands h)"
    then obtain s where f: "find ?acc cands = Some s"
      and res: "optimizePlacement p cands h = (True, snd (SetShelf p s ?h1))"
      using assms by (auto simp: optimizePlacement_cases split: if_splits option.splits)
    from f have mem: "s \<in> set cands" and acc: "?acc s"
      by (auto simp: find_Some_iff)
    from acc have "shelf (order_at (snd (SetShelf p s ?h1)) p) = Some s"
      by (simp add: accepts_def SetShelf_placed)
    with acc mem res show ?thesis
      by (auto simp: accepts_def Supported_def Decay_def)
  qed
  have stays: "\<not> fst (optimizePlacement p cands h) \<Longrightarrow>
      shelf (order_at (snd (optimizePlacement p cands h)) p) = Some c
      \<or> shelf (order_at (snd (optimizePlacement p cands h)) p) = None"
    using assms
      TransitionOrder_no_effect_shelf [of p "state (order_at h p)" Trashed ?h1]
    by (auto simp: optimizePlacement_cases split: if_splits option.splits)
  from placed stays show ?thesis
    by (cases "fst (optimizePlacement p cands h)") auto
qed

lemma best_freed_optimizePlacement:
  "shelf (order_at (snd best_freed) 1) = Some 1"
  "shelvesAsc (fst best_freed) = [2, 1, 0]"
  "fst (optimizePlacement 1 [2, 1, 0] (snd best_freed))"
  "shelf (order_at (snd (optimizePlacement 1 [2, 1, 0] (snd best_freed))) 1) = Some 2"
  "\<not> fst (optimizePlacement 1 [0, 1] (snd best_freed))"
  "shelf (order_at (snd (optimizePlacement 1 [0, 1] (snd best_freed))) 1) = Some 1"
  "decayRate (shelf_at (snd best_freed) 2) = 0"
  "decayRate (shelf_at (snd best_freed) 1) = 1/2"
  unfolding best_freed_def placement_config_def kitchen_steps_def
  by (simp_all add: model_defs state_defs second_clock_def)

theorem optimizePlacement_strictly_better_witness:
  "shelf (order_at (snd best_freed) 1) = Some 1
   \<and> fst (optimizePlacement 1 (shelvesAsc (fst best_freed)) (snd best_freed))
   \<and> shelf (order_at (snd (optimizePlacement 1 (shelvesAsc (fst best_freed)) (snd best_freed))) 1)
       = Some 2
   \<and> decayRate (shelf_at (snd best_freed) 2) < decayRate (shelf_at (snd best_freed) 1)
   \<and> \<not> fst (optimizePlacement 1 [0, 1] (snd best_freed))
   \<and> shelf (order_at (snd (optimizePlacement 1 [0, 1] (snd best_freed))) 1) = Some 1"
proof -
  note ev = best_freed_optimizePlacement
  from optimizePlacement_strictly_better [OF ev(1), of "shelvesAsc (fst best_freed)"] ev
  have "decayRate (shelf_at (snd best_freed) 2) < decayRate (shelf_at (snd best_freed) 1)"
    by auto
  moreover from optimizePlacement_strictly_better [OF ev(1), of "[0, 1]"] ev
  have "shelf (order_at (snd (optimizePlacement 1 [0, 1] (snd best_freed))) 1) = Some 1"
    by simp
  ultimately show ?thesis
    using ev by simp
qed

section \<open>Making an order ready\<close>

lemma isExpired_Created: "state (order_at h p) = Created \<Longrightarrow> isExpired p h = (False, h)"
  by (simp add: isExpired_def)

lemma TransitionOrder_Created:
  "state (order_at h p) = Created \<Longrightarrow>
   TransitionOrder p Created n effect h
     = effect p (update_order p (\<lambda>ordr. ordr\<lparr>state := n\<rparr>) h)"
  by (simp add: TransitionOrder_def isExpired_Created state_defs)

lemma optimizePlacement_Created:
  "state (order_at h p) = Created \<Longrightarrow>
   optimizePlacement p cands h =
     (case find (accepts p (shelf (order_at h p)) (temp (order_at h p)) h) cands of
        None \<Rightarrow> (False, h)
      | Some s \<Rightarrow> (True, snd (SetShelf p s h)))"
  by (simp add: optimizePlacement_cases isExpired_Created split: option.splits)

lemma find_Some_mem: "find P xs = Some x \<Longrightarrow> x \<in> set xs \<and> P x"
  by (induction xs) (auto split: if_splits)

lemma SetShelf_succeeds_iff:
  "fst (SetShelf p s h) = None \<longleftrightarrow>
     orders (shelf_at h s) (order_id (order_at h p)) \<noteq> None
     \<or> numOrders (shelf_at h s) < capacity (shelf_at h s)"
  by (auto simp: SetShelf_def Put_def ID_def Let_def case_prod_beta)

lemma removeOrder_orders:
  "orders (shelf_at (removeOrder p h) x) i =
     (if shelf (order_at h p) = Some x \<and> i = order_id (order_at h p) then None
      else orders (shelf_at h x) i)"
  by (simp add: removeOrder_def Remove_def ID_def Let_def case_prod_beta split: option.splits)

lemma removeOrder_order_id [simp]:
  "order_id (order_at (removeOrder p h) q) = order_id (order_at h q)"
  by (simp add: removeOrder_def Let_def case_prod_beta split: option.splits)

lemma removeOrder_ticks:
  "ticks (removeOrder p h) = (case shelf (order_at h p) of None \<Rightarrow> ticks h | Some c \<Rightarrow> Suc (ticks h))"
  by (simp add: removeOrder_def Let_def case_prod_beta split: option.splits)

lemma removeOrder_trashedAt [simp]:
  "trashedAt (order_at (removeOrder p h) q) = trashedAt (order_at h q)"
  by (simp add: removeOrder_def Let_def case_prod_beta split: option.splits)

lemma SetShelf_moved:
  assumes absent: "orders (shelf_at h s) (order_id (order_at h p)) = None"
    and cap: "numOrders (shelf_at h s) < capacity (shelf_at h s)"
    and other: "shelf (order_at h p) \<noteq> Some s"
  shows "fst (SetShelf p s h) = None"
    and "orders (shelf_at (snd (SetShelf p s h)) x) (order_id (order_at h p)) =
           (if x = s then Some p
            else if shelf (order_at h p) = Some x then None
            else orders (shelf_at h x) (order_id (order_at h p)))"
    and "ticks (snd (SetShelf p s h)) =
           (case shelf (order_at h p) of None \<Rightarrow> Suc (ticks h) | Some c \<Rightarrow> Suc (Suc (ticks h)))"
proof -
  let ?h1 = "h\<lparr>shelf_at := (shelf_at h)(s := (shelf_at h s)
              \<lparr>numOrders := numOrders (shelf_at h s) + 1,
               orders := (orders (shelf_at h s))(order_id (order_at h p) \<mapsto> p)\<rparr>)\<rparr>"
  from absent cap have put: "Put s p h = (None, ?h1)"
    by (simp add: Put_def ID_def Let_def)
  then show "fst (SetShelf p s h) = None"
    by (simp add: SetShelf_def Let_def case_prod_beta)
  have res: "snd (SetShelf p s h) =
      update_order p (\<lambda>ordr. ordr\<lparr>placedAt := order_now (order_at (removeOrder p ?h1) p)
                                              (ticks (removeOrder p ?h1))\<rparr>)
        (snd (call_now p (update_order p (\<lambda>ordr. ordr\<lparr>shelf := Some s\<rparr>) (removeOrder p ?h1))))"
    by (simp add: SetShelf_def put Let_def case_prod_beta)
  show "orders (shelf_at (snd (SetShelf p s h)) x) (order_id (order_at h p)) =
           (if x = s then Some p
            else if shelf (order_at h p) = Some x then None
            else orders (shelf_at h x) (order_id (order_at h p)))"
    using other by (auto simp: res removeOrder_orders)
  show "ticks (snd (SetShelf p s h)) =
           (case shelf (order_at h p) of None \<Rightarrow> Suc (ticks h) | Some c \<Rightarrow> Suc (Suc (ticks h)))"
    by (simp add: res removeOrder_ticks split: option.splits)
qed

lemma accepts_iff_eligible:
  assumes "only_on_own_shelf h p"
  shows "accepts p (shelf (order_at h p)) (temp (order_at h p)) h s \<longleftrightarrow> eligible h p s"
proof (cases "shelf (order_at h p) = Some s")
  case True
  then show ?thesis
    by (simp add: accepts_def eligible_def)
next
  case False
  with assms have "orders (shelf_at h s) (order_id (order_at h p)) = None"
    by (simp add: only_on_own_shelf_def)
  with False show ?thesis
    by (auto simp: accepts_def eligible_def SetShelf_succeeds_iff Supported_def Decay_def
        split: option.splits)
qed

lemma SetOrderReady_trashes:
  assumes created: "state (order_at h p) = Created"
    and own: "only_on_own_shelf h p"
    and res: "snd (snd (SetOrderReady k p h)) =
        removeOrder p (update_order p
          (\<lambda>ordr. ordr\<lparr>state := Trashed, trashedAt := kitchen_now k (ticks h)\<rparr>)
          (h\<lparr>ticks := Suc (ticks h)\<rparr>))"
  shows "state (order_at (snd (snd (SetOrderReady k p h))) p) = Trashed"
    and "trashedAt (order_at (snd (snd (SetOrderReady k p h))) p) = kitchen_now k (ticks h)"
    and "shelf (order_at (snd (snd (SetOrderReady k p h))) p) = None"
    and "\<forall>s. orders (shelf_at (snd (snd (SetOrderReady k p h))) s) (order_id (order_at h p)) = None"
  using own by (auto simp: res removeOrder_orders only_on_own_shelf_def)

text \<open>
  The first statement of \<open>CreateOrder\<close> takes a new order to \<open>Created\<close> and sets
  \<open>createdAt\<close>; it touches neither the shelf reference nor any shelf, so an order that
  was on no shelf comes to \<open>SetOrderReady\<close> on no shelf.
\<close>

lemma CreateOrder_created_new_order:
  assumes "state (order_at h p) = Unset"
  shows "order_at (CreateOrder_created k p h) =
           (order_at h)(p := (order_at h p)
              \<lparr>state := Created, createdAt := kitchen_now k (ticks h)\<rparr>)"
    and "shelf_at (CreateOrder_created k p h) = shelf_at h"
    and "ticks (CreateOrder_created k p h) = Suc (ticks h)"
  using assms
  by (simp_all add: CreateOrder_created_def TransitionOrder_def isExpired_def case_prod_beta
      Let_def fun_eq_iff)

text \<open>
  Claim C3, as amended. An order in state \<open>Created\<close> whose id is in the map of no
  shelf but its own, passed to \<open>SetOrderReady\<close>:
  \<^item> if the index has no entry for its temperature, which in the index \<open>NewKitchen\<close>
    builds means that no shelf supports it (lemma \<open>NewKitchen_index\<close>), the result is
    \<open>Unsupported\<close>, the order is \<open>Trashed\<close> with \<open>trashedAt\<close> set from the kitchen's
    clock, and it is on no shelf: its shelf reference is null and no map holds its id;
  \<^item> if no shelf listed for its temperature is eligible, the result is \<open>NoShelf\<close>, the
    order is \<open>Trashed\<close> with \<open>trashedAt\<close> set, and it is on no shelf;
  \<^item> otherwise the result is ok, the order is \<open>Ready\<close> with \<open>readyAt\<close> set from the
    kitchen's clock, and it is on an eligible listed shelf and on no other.
  For an order that is on no shelf, the eligible shelves are those that support its
  temperature and have free capacity.
\<close>

theorem SetOrderReady_of_created_order:
  assumes created: "state (order_at h p) = Created"
    and own: "only_on_own_shelf h p"
  shows "(supportedIndex k (temp (order_at h p)) = None \<longrightarrow>
            fst (SetOrderReady k p h) = Some Unsupported
            \<and> state (order_at (snd (snd (SetOrderReady k p h))) p) = Trashed
            \<and> trashedAt (order_at (snd (snd (SetOrderReady k p h))) p) = kitchen_now k (ticks h)
            \<and> shelf (order_at (snd (snd (SetOrderReady k p h))) p) = None
            \<and> (\<forall>s. orders (shelf_at (snd (snd (SetOrderReady k p h))) s)
                      (order_id (order_at h p)) = None))
       \<and> (\<forall>spt. supportedIndex k (temp (order_at h p)) = Some spt
              \<and> (\<forall>s \<in> set spt. \<not> eligible h p s) \<longrightarrow>
            fst (SetOrderReady k p h) = Some NoShelf
            \<and> state (order_at (snd (snd (SetOrderReady k p h))) p) = Trashed
            \<and> trashedAt (order_at (snd (snd (SetOrderReady k p h))) p) = kitchen_now k (ticks h)
            \<and> shelf (order_at (snd (snd (SetOrderReady k p h))) p) = None
            \<and> (\<forall>s. orders (shelf_at (snd (snd (SetOrderReady k p h))) s)
                      (order_id (order_at h p)) = None))
       \<and> (\<forall>spt. supportedIndex k (temp (order_at h p)) = Some spt
              \<and> (\<exists>s \<in> set spt. eligible h p s) \<longrightarrow>
            fst (SetOrderReady k p h) = None
            \<and> state (order_at (snd (snd (SetOrderReady k p h))) p) = Ready
            \<and> readyAt (order_at (snd (snd (SetOrderReady k p h))) p)
                = kitchen_now k (case shelf (order_at h p) of
                                   None \<Rightarrow> Suc (ticks h) | Some c \<Rightarrow> Suc (Suc (ticks h)))
            \<and> (\<exists>s \<in> set spt.
                  shelf (order_at (snd (snd (SetOrderReady k p h))) p) = Some s
                  \<and> eligible h p s
                  \<and> orders (shelf_at (snd (snd (SetOrderReady k p h))) s)
                       (order_id (order_at h p)) = Some p
                  \<and> (\<forall>x. x \<noteq> s \<longrightarrow>
                         orders (shelf_at (snd (snd (SetOrderReady k p h))) x)
                           (order_id (order_at h p)) = None)))
       \<and> (shelf (order_at h p) = None \<longrightarrow>
            (\<forall>s. eligible h p s \<longleftrightarrow>
                  temp (order_at h p) \<in> set (supported (shelf_at h s))
                  \<and> numOrders (shelf_at h s) < capacity (shelf_at h s)))"
proof (intro conjI allI impI)
  let ?ty = "temp (order_at h p)"
  let ?acc = "accepts p (shelf (order_at h p)) ?ty h"
  note acc_iff = accepts_iff_eligible [OF own]
  let ?trashed = "removeOrder p (update_order p
          (\<lambda>ordr. ordr\<lparr>state := Trashed, trashedAt := kitchen_now k (ticks h)\<rparr>)
          (h\<lparr>ticks := Suc (ticks h)\<rparr>))"
  {
    assume none: "supportedIndex k ?ty = None"
    have res: "SetOrderReady k p h = (Some Unsupported, k, ?trashed)"
      using created none
      by (simp add: SetOrderReady_def Temp_def TransitionOrder_Created case_prod_beta Let_def
          k_now_def update_order_def)
    then have heap: "snd (snd (SetOrderReady k p h)) = ?trashed"
      by simp
    show "fst (SetOrderReady k p h) = Some Unsupported"
      by (simp add: res)
    show "state (order_at (snd (snd (SetOrderReady k p h))) p) = Trashed"
      and "trashedAt (order_at (snd (snd (SetOrderReady k p h))) p) = kitchen_now k (ticks h)"
      and "shelf (order_at (snd (snd (SetOrderReady k p h))) p) = None"
      using SetOrderReady_trashes [OF created own heap] by simp_all
    show "orders (shelf_at (snd (snd (SetOrderReady k p h))) s) (order_id (order_at h p)) = None"
      for s
      using SetOrderReady_trashes(4) [OF created own heap] by simp
  }
  {
    fix spt
    assume full: "supportedIndex k ?ty = Some spt \<and> (\<forall>s \<in> set spt. \<not> eligible h p s)"
    let ?sorted = "sort_Slice (\<lambda>a b. Decay a h < Decay b h) spt"
    from full have "find ?acc ?sorted = None"
      by (auto simp: find_None_iff acc_iff)
    then have opt: "optimizePlacement p ?sorted h = (False, h)"
      using created by (simp add: optimizePlacement_Created)
    have res: "SetOrderReady k p h =
        (Some NoShelf, k\<lparr>supportedIndex := (supportedIndex k)(?ty \<mapsto> ?sorted)\<rparr>, ?trashed)"
      using created full opt
      by (simp add: SetOrderReady_def Temp_def TransitionOrder_Created case_prod_beta Let_def
          k_now_def update_order_def)
    then have heap: "snd (snd (SetOrderReady k p h)) = ?trashed"
      by simp
    show "fst (SetOrderReady k p h) = Some NoShelf"
      by (simp add: res)
    show "state (order_at (snd (snd (SetOrderReady k p h))) p) = Trashed"
      and "trashedAt (order_at (snd (snd (SetOrderReady k p h))) p) = kitchen_now k (ticks h)"
      and "shelf (order_at (snd (snd (SetOrderReady k p h))) p) = None"
      using SetOrderReady_trashes [OF created own heap] by simp_all
    show "orders (shelf_at (snd (snd (SetOrderReady k p h))) s) (order_id (order_at h p)) = None"
      for s
      using SetOrderReady_trashes(4) [OF created own heap] by simp
  }
  {
    fix spt
    assume free: "supportedIndex k ?ty = Some spt \<and> (\<exists>s \<in> set spt. eligible h p s)"
    let ?sorted = "sort_Slice (\<lambda>a b. Decay a h < Decay b h) spt"
    let ?k1 = "k\<lparr>supportedIndex := (supportedIndex k)(?ty \<mapsto> ?sorted)\<rparr>"
    from free have "find ?acc ?sorted \<noteq> None"
      by (auto simp: find_None_iff acc_iff)
    then obtain s where f: "find ?acc ?sorted = Some s"
      by auto
    then have mem: "s \<in> set spt" and acc: "?acc s"
      by (auto dest: find_Some_mem)
    from acc have el: "eligible h p s"
      by (simp add: acc_iff)
    from acc have other: "shelf (order_at h p) \<noteq> Some s"
      by (simp add: accepts_def)
    with own have absent: "orders (shelf_at h s) (order_id (order_at h p)) = None"
      by (simp add: only_on_own_shelf_def)
    from el have cap: "numOrders (shelf_at h s) < capacity (shelf_at h s)"
      by (simp add: eligible_def)
    let ?h1 = "snd (SetShelf p s h)"
    let ?t = "case shelf (order_at h p) of None \<Rightarrow> Suc (ticks h) | Some c \<Rightarrow> Suc (Suc (ticks h))"
    from f have opt: "optimizePlacement p ?sorted h = (True, ?h1)"
      using created by (simp add: optimizePlacement_Created)
    note moved = SetShelf_moved [OF absent cap other]
    have st1: "state (order_at ?h1 p) = Created"
      using created by simp
    have sh1: "shelf (order_at ?h1 p) = Some s"
      using moved(1) by (rule SetShelf_placed)
    have res: "SetOrderReady k p h =
        (None, ?k1,
         update_order p (\<lambda>ordr. ordr\<lparr>state := Ready, readyAt := kitchen_now k ?t\<rparr>)
           (?h1\<lparr>ticks := Suc ?t\<rparr>))"
      using free opt moved(3)
      by (simp add: SetOrderReady_def Temp_def TransitionOrder_Created [OF st1] case_prod_beta
          Let_def k_now_def update_order_def)
    show "fst (SetOrderReady k p h) = None"
      and "state (order_at (snd (snd (SetOrderReady k p h))) p) = Ready"
      and "readyAt (order_at (snd (snd (SetOrderReady k p h))) p) = kitchen_now k ?t"
      by (simp_all add: res)
    show "\<exists>s \<in> set spt.
            shelf (order_at (snd (snd (SetOrderReady k p h))) p) = Some s
            \<and> eligible h p s
            \<and> orders (shelf_at (snd (snd (SetOrderReady k p h))) s)
                 (order_id (order_at h p)) = Some p
            \<and> (\<forall>x. x \<noteq> s \<longrightarrow>
                   orders (shelf_at (snd (snd (SetOrderReady k p h))) x)
                     (order_id (order_at h p)) = None)"
    proof (intro bexI [of _ s] conjI allI impI)
      show "s \<in> set spt" by (rule mem)
      show "eligible h p s" by (rule el)
      show "shelf (order_at (snd (snd (SetOrderReady k p h))) p) = Some s"
        using sh1 by (simp add: res)
      show "orders (shelf_at (snd (snd (SetOrderReady k p h))) s) (order_id (order_at h p)) = Some p"
        by (simp add: res moved(2))
      show "orders (shelf_at (snd (snd (SetOrderReady k p h))) x) (order_id (order_at h p)) = None"
        if "x \<noteq> s" for x
        using that own by (auto simp: res moved(2) only_on_own_shelf_def)
    qed
  }
  {
    fix s
    assume "shelf (order_at h p) = None"
    then show "eligible h p s \<longleftrightarrow>
        temp (order_at h p) \<in> set (supported (shelf_at h s))
        \<and> numOrders (shelf_at h s) < capacity (shelf_at h s)"
      by (simp add: eligible_def)
  }
qed

lemma placement_kitchen_eval:
  "supportedIndex placement_kitchen ''hot'' = Some [0, 1, 2]"
  "kitchen_now placement_kitchen = test_clock"
  unfolding placement_kitchen_def placement_config_def
  by (simp_all add: model_defs)

lemma capacity_kitchen_eval:
  "supportedIndex capacity_kitchen ''hot'' = Some [0]"
  "supportedIndex capacity_kitchen ''frozen'' = None"
  "kitchen_now capacity_kitchen = second_clock"
  unfolding capacity_kitchen_def capacity_config_def
  by (simp_all add: model_defs)

lemma created_on_best_eval:
  "state (order_at created_on_best 0) = Created"
  "shelf (order_at created_on_best 0) = Some 2"
  "temp (order_at created_on_best 0) = ''hot''"
  "order_id (order_at created_on_best 0) = ''order-1''"
  "only_on_own_shelf created_on_best 0"
  "\<not> eligible created_on_best 0 0"
  "\<not> eligible created_on_best 0 1"
  "\<not> eligible created_on_best 0 2"
  "supported (shelf_at created_on_best 0) = [''hot'']"
  "numOrders (shelf_at created_on_best 0) = 0"
  "capacity (shelf_at created_on_best 0) = 1"
  "supported (shelf_at created_on_best 1) = [''hot'']"
  "numOrders (shelf_at created_on_best 1) = 0"
  "capacity (shelf_at created_on_best 1) = 1"
  "ticks created_on_best = 2"
  unfolding created_on_best_def two_orders_def placement_kitchen_def placement_config_def
  by (simp_all add: model_defs state_defs only_on_own_shelf_def eligible_def)

lemma created_on_bad_eval:
  "state (order_at created_on_bad 0) = Created"
  "shelf (order_at created_on_bad 0) = Some 0"
  "temp (order_at created_on_bad 0) = ''hot''"
  "order_id (order_at created_on_bad 0) = ''order-1''"
  "only_on_own_shelf created_on_bad 0"
  "\<not> eligible created_on_bad 0 0"
  "eligible created_on_bad 0 1"
  "eligible created_on_bad 0 2"
  "ticks created_on_bad = 2"
  unfolding created_on_bad_def two_orders_def placement_kitchen_def placement_config_def
  by (simp_all add: model_defs state_defs only_on_own_shelf_def eligible_def)

lemma created_on_bad_ready:
  "shelf (order_at (snd (snd (SetOrderReady placement_kitchen 0 created_on_bad))) 0) = Some 2"
  unfolding created_on_bad_def two_orders_def placement_kitchen_def placement_config_def
  by (simp add: model_defs state_defs)

lemma frozen_on_hot_eval:
  "state (order_at frozen_on_hot 2) = Created"
  "shelf (order_at frozen_on_hot 2) = Some 0"
  "temp (order_at frozen_on_hot 2) = ''frozen''"
  "order_id (order_at frozen_on_hot 2) = ''order-3''"
  "only_on_own_shelf frozen_on_hot 2"
  "orders (shelf_at frozen_on_hot 0) ''order-3'' = Some 2"
  "ticks frozen_on_hot = 2"
  unfolding frozen_on_hot_def three_orders_def capacity_kitchen_def capacity_config_def
  by (simp_all add: model_defs state_defs only_on_own_shelf_def)

lemma three_orders_created:
  "state (order_at (CreateOrder_created capacity_kitchen 0 three_orders) 0) = Created"
  "shelf (order_at (CreateOrder_created capacity_kitchen 0 three_orders) 0) = None"
  "temp (order_at (CreateOrder_created capacity_kitchen 0 three_orders) 0) = ''hot''"
  "only_on_own_shelf (CreateOrder_created capacity_kitchen 0 three_orders) 0"
  "eligible (CreateOrder_created capacity_kitchen 0 three_orders) 0 0"
  "ticks (CreateOrder_created capacity_kitchen 0 three_orders) = 1"
  unfolding three_orders_def capacity_kitchen_def capacity_config_def
  by (simp_all add: model_defs state_defs only_on_own_shelf_def eligible_def)

lemma shelf_taken_created:
  "state (order_at (CreateOrder_created capacity_kitchen 1 shelf_taken) 1) = Created"
  "shelf (order_at (CreateOrder_created capacity_kitchen 1 shelf_taken) 1) = None"
  "temp (order_at (CreateOrder_created capacity_kitchen 1 shelf_taken) 1) = ''hot''"
  "only_on_own_shelf (CreateOrder_created capacity_kitchen 1 shelf_taken) 1"
  "\<not> eligible (CreateOrder_created capacity_kitchen 1 shelf_taken) 1 0"
  "numOrders (shelf_at (CreateOrder_created capacity_kitchen 1 shelf_taken) 0) = 1"
  "capacity (shelf_at (CreateOrder_created capacity_kitchen 1 shelf_taken) 0) = 1"
  "ticks (CreateOrder_created capacity_kitchen 1 shelf_taken) = 4"
  unfolding shelf_taken_def three_orders_def capacity_kitchen_def capacity_config_def
  by (simp_all add: model_defs state_defs second_clock_def only_on_own_shelf_def eligible_def)

theorem SetOrderReady_of_created_order_witness:
  "state (order_at frozen_on_hot 2) = Created
   \<and> shelf (order_at frozen_on_hot 2) = Some 0
   \<and> orders (shelf_at frozen_on_hot 0) ''order-3'' = Some 2
   \<and> fst (SetOrderReady capacity_kitchen 2 frozen_on_hot) = Some Unsupported
   \<and> state (order_at (snd (snd (SetOrderReady capacity_kitchen 2 frozen_on_hot))) 2) = Trashed
   \<and> trashedAt (order_at (snd (snd (SetOrderReady capacity_kitchen 2 frozen_on_hot))) 2)
       = 2000000000
   \<and> shelf (order_at (snd (snd (SetOrderReady capacity_kitchen 2 frozen_on_hot))) 2) = None
   \<and> orders (shelf_at (snd (snd (SetOrderReady capacity_kitchen 2 frozen_on_hot))) 0)
        ''order-3'' = None
   \<and> fst (SetOrderReady capacity_kitchen 1 (CreateOrder_created capacity_kitchen 1 shelf_taken))
       = Some NoShelf
   \<and> state (order_at (snd (snd (SetOrderReady capacity_kitchen 1
         (CreateOrder_created capacity_kitchen 1 shelf_taken)))) 1) = Trashed
   \<and> shelf (order_at (snd (snd (SetOrderReady capacity_kitchen 1
         (CreateOrder_created capacity_kitchen 1 shelf_taken)))) 1) = None
   \<and> fst (SetOrderReady placement_kitchen 0 created_on_best) = Some NoShelf
   \<and> shelf (order_at (snd (snd (SetOrderReady placement_kitchen 0 created_on_best))) 0) = None
   \<and> orders (shelf_at (snd (snd (SetOrderReady placement_kitchen 0 created_on_best))) 2)
        ''order-1'' = None
   \<and> fst (SetOrderReady capacity_kitchen 0 (CreateOrder_created capacity_kitchen 0 three_orders))
       = None
   \<and> state (order_at (snd (snd (SetOrderReady capacity_kitchen 0
         (CreateOrder_created capacity_kitchen 0 three_orders)))) 0) = Ready
   \<and> shelf (order_at (snd (snd (SetOrderReady capacity_kitchen 0
         (CreateOrder_created capacity_kitchen 0 three_orders)))) 0) = Some 0
   \<and> readyAt (order_at (snd (snd (SetOrderReady capacity_kitchen 0
         (CreateOrder_created capacity_kitchen 0 three_orders)))) 0) = 2000000000
   \<and> fst (SetOrderReady placement_kitchen 0 created_on_bad) = None
   \<and> state (order_at (snd (snd (SetOrderReady placement_kitchen 0 created_on_bad))) 0) = Ready
   \<and> readyAt (order_at (snd (snd (SetOrderReady placement_kitchen 0 created_on_bad))) 0)
       = 480000000000
   \<and> orders (shelf_at (snd (snd (SetOrderReady placement_kitchen 0 created_on_bad))) 0)
        ''order-1'' = None"
proof -
  note kc = capacity_kitchen_eval
  note kp = placement_kitchen_eval
  note a = frozen_on_hot_eval
  note b = shelf_taken_created
  note c = created_on_best_eval
  note d = three_orders_created
  note e = created_on_bad_eval
  from SetOrderReady_of_created_order [OF a(1) a(5), of capacity_kitchen] kc a
  have unsupported:
    "fst (SetOrderReady capacity_kitchen 2 frozen_on_hot) = Some Unsupported
     \<and> state (order_at (snd (snd (SetOrderReady capacity_kitchen 2 frozen_on_hot))) 2) = Trashed
     \<and> trashedAt (order_at (snd (snd (SetOrderReady capacity_kitchen 2 frozen_on_hot))) 2)
         = 2000000000
     \<and> shelf (order_at (snd (snd (SetOrderReady capacity_kitchen 2 frozen_on_hot))) 2) = None
     \<and> orders (shelf_at (snd (snd (SetOrderReady capacity_kitchen 2 frozen_on_hot))) 0)
          ''order-3'' = None"
    by (simp add: second_clock_def)
  from SetOrderReady_of_created_order [OF b(1) b(4), of capacity_kitchen] kc b
  have full:
    "fst (SetOrderReady capacity_kitchen 1 (CreateOrder_created capacity_kitchen 1 shelf_taken))
       = Some NoShelf
     \<and> state (order_at (snd (snd (SetOrderReady capacity_kitchen 1
           (CreateOrder_created capacity_kitchen 1 shelf_taken)))) 1) = Trashed
     \<and> shelf (order_at (snd (snd (SetOrderReady capacity_kitchen 1
           (CreateOrder_created capacity_kitchen 1 shelf_taken)))) 1) = None"
    by simp
  from SetOrderReady_of_created_order [OF c(1) c(5), of placement_kitchen] kp c
  have no_better:
    "fst (SetOrderReady placement_kitchen 0 created_on_best) = Some NoShelf
     \<and> shelf (order_at (snd (snd (SetOrderReady placement_kitchen 0 created_on_best))) 0) = None
     \<and> orders (shelf_at (snd (snd (SetOrderReady placement_kitchen 0 created_on_best))) 2)
          ''order-1'' = None"
    by simp
  from SetOrderReady_of_created_order [OF d(1) d(4), of capacity_kitchen] kc d
  have placed:
    "fst (SetOrderReady capacity_kitchen 0 (CreateOrder_created capacity_kitchen 0 three_orders))
       = None
     \<and> state (order_at (snd (snd (SetOrderReady capacity_kitchen 0
           (CreateOrder_created capacity_kitchen 0 three_orders)))) 0) = Ready
     \<and> shelf (order_at (snd (snd (SetOrderReady capacity_kitchen 0
           (CreateOrder_created capacity_kitchen 0 three_orders)))) 0) = Some 0
     \<and> readyAt (order_at (snd (snd (SetOrderReady capacity_kitchen 0
           (CreateOrder_created capacity_kitchen 0 three_orders)))) 0) = 2000000000"
    by (simp add: second_clock_def)
  from SetOrderReady_of_created_order [OF e(1) e(5), of placement_kitchen] kp e
    created_on_bad_ready
  have moved:
    "fst (SetOrderReady placement_kitchen 0 created_on_bad) = None
     \<and> state (order_at (snd (snd (SetOrderReady placement_kitchen 0 created_on_bad))) 0) = Ready
     \<and> readyAt (order_at (snd (snd (SetOrderReady placement_kitchen 0 created_on_bad))) 0)
         = 480000000000
     \<and> orders (shelf_at (snd (snd (SetOrderReady placement_kitchen 0 created_on_bad))) 0)
          ''order-1'' = None"
    by (auto simp: test_clock_def)
  from unsupported full no_better placed moved a(1,2,6) show ?thesis
    by simp
qed

text \<open>
  Claim C3, as stated, fails for a \<open>Created\<close> order that has a shelf: on the best
  shelf of the placement test, with the bad and the good shelf free and supporting its
  temperature, the order is not placed but trashed, and the result is \<open>NoShelf\<close>.
\<close>

theorem SetOrderReady_trashes_created_order_on_best:
  "state (order_at created_on_best 0) = Created
   \<and> temp (order_at created_on_best 0) = ''hot''
   \<and> supportedIndex placement_kitchen ''hot'' = Some [0, 1, 2]
   \<and> ''hot'' \<in> set (supported (shelf_at created_on_best 0))
   \<and> numOrders (shelf_at created_on_best 0) < capacity (shelf_at created_on_best 0)
   \<and> ''hot'' \<in> set (supported (shelf_at created_on_best 1))
   \<and> numOrders (shelf_at created_on_best 1) < capacity (shelf_at created_on_best 1)
   \<and> fst (SetOrderReady placement_kitchen 0 created_on_best) = Some NoShelf
   \<and> state (order_at (snd (snd (SetOrderReady placement_kitchen 0 created_on_best))) 0) = Trashed"
  unfolding created_on_best_def two_orders_def placement_kitchen_def placement_config_def
  by (simp add: model_defs state_defs)

section \<open>The shelf reference follows the state\<close>

lemma SetOrderEnroute_shelf_iff_active:
  "shelf_iff_active (order_at h p) \<Longrightarrow>
   shelf_iff_active (order_at (snd (SetOrderEnroute k p h)) p)"
  by (auto simp: SetOrderEnroute_def TransitionOrder_def shelf_iff_active_def Let_def
      case_prod_beta state_defs)

lemma SetOrderPickedUp_shelf_iff_active:
  "shelf_iff_active (order_at h p) \<Longrightarrow>
   shelf_iff_active (order_at (snd (SetOrderPickedUp k p h)) p)"
  by (auto simp: SetOrderPickedUp_def TransitionOrder_def shelf_iff_active_def Let_def
      case_prod_beta state_defs)

lemma SetOrderReady_shelf_iff_active:
  assumes "state (order_at h p) = Created"
  shows "shelf_iff_active (order_at (snd (snd (SetOrderReady k p h))) p)"
proof (cases "supportedIndex k (temp (order_at h p))")
  case None
  with assms show ?thesis
    by (simp add: SetOrderReady_def Temp_def TransitionOrder_Created case_prod_beta Let_def
        shelf_iff_active_def)
next
  case (Some spt)
  let ?sorted = "sort_Slice (\<lambda>a b. Decay a h < Decay b h) spt"
  show ?thesis
  proof (cases "find (accepts p (shelf (order_at h p)) (temp (order_at h p)) h) ?sorted")
    case None
    then have "optimizePlacement p ?sorted h = (False, h)"
      using assms by (simp add: optimizePlacement_Created)
    with assms Some show ?thesis
      by (simp add: SetOrderReady_def Temp_def TransitionOrder_Created case_prod_beta Let_def
          shelf_iff_active_def)
  next
    case found: (Some s)
    let ?h1 = "snd (SetShelf p s h)"
    from found have opt: "optimizePlacement p ?sorted h = (True, ?h1)"
      using assms by (simp add: optimizePlacement_Created)
    from found have "fst (SetShelf p s h) = None"
      by (auto dest: find_Some_mem simp: accepts_def)
    then have sh: "shelf (order_at ?h1 p) = Some s"
      by (rule SetShelf_placed)
    have st1: "state (order_at ?h1 p) = Created"
      using assms by simp
    from Some opt sh show ?thesis
      by (simp add: SetOrderReady_def Temp_def TransitionOrder_Created [OF st1] case_prod_beta
          Let_def shelf_iff_active_def)
  qed
qed

lemma CreateOrder_created_Unset:
  "state (order_at h p) = Unset \<Longrightarrow>
   state (order_at (CreateOrder_created k p h) p) = Created"
  by (simp add: CreateOrder_created_def TransitionOrder_def isExpired_def case_prod_beta
      Let_def)

lemma TransitionOrder_other_order:
  assumes "\<And>g. order_at (snd (effect q g)) p = order_at g p" and "q \<noteq> p"
  shows "order_at (snd (TransitionOrder q e n effect h)) p = order_at h p"
  using assms by (simp add: TransitionOrder_def case_prod_beta Let_def)

lemma SetShelf_other_order:
  "q \<noteq> p \<Longrightarrow> order_at (snd (SetShelf q s h)) p = order_at h p"
  by (simp add: SetShelf_def case_prod_beta Let_def)

lemma optimizePlacement_other_order:
  "q \<noteq> p \<Longrightarrow> order_at (snd (optimizePlacement q cands h)) p = order_at h p"
  by (simp add: optimizePlacement_cases TransitionOrder_other_order SetShelf_other_order
      no_effect_def split: option.splits)

lemma SetOrderEnroute_other_order:
  "q \<noteq> p \<Longrightarrow> order_at (snd (SetOrderEnroute k q h)) p = order_at h p"
  by (simp add: SetOrderEnroute_def TransitionOrder_other_order case_prod_beta)

lemma SetOrderPickedUp_other_order:
  "q \<noteq> p \<Longrightarrow> order_at (snd (SetOrderPickedUp k q h)) p = order_at h p"
  by (simp add: SetOrderPickedUp_def TransitionOrder_other_order case_prod_beta Let_def)

lemma SetOrderReady_other_order:
  "q \<noteq> p \<Longrightarrow> order_at (snd (snd (SetOrderReady k q h))) p = order_at h p"
  by (simp add: SetOrderReady_def TransitionOrder_other_order optimizePlacement_other_order
      case_prod_beta Let_def split: option.splits)

lemma CreateOrder_created_other_order:
  "q \<noteq> p \<Longrightarrow> order_at (CreateOrder_created k q h) p = order_at h p"
  by (simp add: CreateOrder_created_def TransitionOrder_other_order case_prod_beta)

lemma CreateOrder_other_order:
  "q \<noteq> p \<Longrightarrow> order_at (snd (snd (CreateOrder k q h))) p = order_at h p"
  by (simp add: CreateOrder_def SetOrderReady_other_order CreateOrder_created_other_order)

text \<open>
  Claim C2, as amended. If an order has a shelf exactly when its state is \<open>Ready\<close> or
  \<open>Enroute\<close>, then the same holds after \<open>SetOrderEnroute\<close> and after
  \<open>SetOrderPickedUp\<close>, after \<open>SetOrderReady\<close> on a \<open>Created\<close> order and after
  \<open>CreateOrder\<close> on an order not yet created. A call for another order leaves the order
  as it is. An order for which it holds has no shelf when \<open>PickedUp\<close> or \<open>Trashed\<close>.
\<close>

theorem kitchen_calls_keep_shelf_iff_active:
  assumes "shelf_iff_active (order_at h p)"
  shows "shelf_iff_active (order_at (snd (SetOrderEnroute k p h)) p)
       \<and> shelf_iff_active (order_at (snd (SetOrderPickedUp k p h)) p)
       \<and> (state (order_at h p) = Created \<longrightarrow>
            shelf_iff_active (order_at (snd (snd (SetOrderReady k p h))) p))
       \<and> (state (order_at h p) = Unset \<longrightarrow>
            shelf_iff_active (order_at (snd (snd (CreateOrder k p h))) p))
       \<and> (\<forall>q. q \<noteq> p \<longrightarrow>
            order_at (snd (SetOrderEnroute k q h)) p = order_at h p
            \<and> order_at (snd (SetOrderPickedUp k q h)) p = order_at h p
            \<and> order_at (snd (snd (SetOrderReady k q h))) p = order_at h p
            \<and> order_at (snd (snd (CreateOrder k q h))) p = order_at h p)
       \<and> (\<forall>ordr. shelf_iff_active ordr \<and> (state ordr = PickedUp \<or> state ordr = Trashed) \<longrightarrow>
            shelf ordr = None)"
proof -
  have "shelf ordr = None"
    if "shelf_iff_active ordr" and "state ordr = PickedUp \<or> state ordr = Trashed" for ordr
    using that by (auto simp: shelf_iff_active_def)
  with assms show ?thesis
    by (simp add: SetOrderEnroute_shelf_iff_active SetOrderPickedUp_shelf_iff_active
        SetOrderReady_shelf_iff_active CreateOrder_def CreateOrder_created_Unset
        SetOrderEnroute_other_order SetOrderPickedUp_other_order SetOrderReady_other_order
        CreateOrder_created_other_order)
qed

theorem kitchen_calls_keep_shelf_iff_active_witness:
  "shelf_iff_active (order_at first_ready 0)
   \<and> shelf_iff_active (order_at (snd (SetOrderEnroute placement_kitchen 0 first_ready)) 0)
   \<and> shelf_iff_active (order_at (snd (SetOrderPickedUp placement_kitchen 0 first_ready)) 0)
   \<and> shelf_iff_active (order_at (snd (snd (SetOrderReady capacity_kitchen 1
        (CreateOrder_created capacity_kitchen 1 shelf_taken)))) 1)
   \<and> shelf_iff_active (order_at (snd (snd (CreateOrder placement_kitchen 1 first_ready))) 1)
   \<and> order_at (snd (SetOrderEnroute placement_kitchen 0 first_ready)) 1 = order_at first_ready 1
   \<and> shelf (order_at first_trashed 0) = None"
proof -
  have inv0: "shelf_iff_active (order_at first_ready 0)"
    by (simp add: shelf_iff_active_def first_ready_eval)
  have inv1: "shelf_iff_active (order_at first_ready 1)"
    and unset: "state (order_at first_ready 1) = Unset"
    by (simp_all add: shelf_iff_active_def first_ready_eval)
  have inv2: "shelf_iff_active (order_at (CreateOrder_created capacity_kitchen 1 shelf_taken) 1)"
    using shelf_taken_created(1,2) by (simp add: shelf_iff_active_def)
  note a = kitchen_calls_keep_shelf_iff_active [OF inv0, of placement_kitchen]
  note b = kitchen_calls_keep_shelf_iff_active [OF inv1, of placement_kitchen]
  note c = kitchen_calls_keep_shelf_iff_active [OF inv2, of capacity_kitchen]
  from a have "shelf_iff_active (order_at first_trashed 0)"
    by (simp add: first_trashed_def)
  with a have "shelf (order_at first_trashed 0) = None"
    using first_trashed_state by blast
  with a b c inv0 unset shelf_taken_created(1) show ?thesis
    by simp
qed

text \<open>
  Claim C2, as stated, fails for the two operations on \<open>Order\<close>: \<open>SetShelf\<close> on a
  \<open>Created\<close> order without a shelf succeeds and leaves it \<open>Created\<close> with a shelf;
  \<open>TransitionOrder\<close> from \<open>Created\<close> to \<open>Ready\<close> with a side effect that does nothing
  leaves it \<open>Ready\<close> without a shelf.
\<close>

theorem SetShelf_breaks_shelf_iff_active:
  "state (order_at (CreateOrder_created placement_kitchen 0 two_orders) 0) = Created
   \<and> shelf (order_at (CreateOrder_created placement_kitchen 0 two_orders) 0) = None
   \<and> fst (SetShelf 0 0 (CreateOrder_created placement_kitchen 0 two_orders)) = None
   \<and> state (order_at (snd (SetShelf 0 0 (CreateOrder_created placement_kitchen 0 two_orders))) 0)
       = Created
   \<and> shelf (order_at (snd (SetShelf 0 0 (CreateOrder_created placement_kitchen 0 two_orders))) 0)
       = Some 0
   \<and> Created \<noteq> Ready \<and> Created \<noteq> Enroute
   \<and> fst (TransitionOrder 0 Created Ready no_effect
             (CreateOrder_created placement_kitchen 0 two_orders)) = None
   \<and> state (order_at (snd (TransitionOrder 0 Created Ready no_effect
             (CreateOrder_created placement_kitchen 0 two_orders))) 0) = Ready
   \<and> shelf (order_at (snd (TransitionOrder 0 Created Ready no_effect
             (CreateOrder_created placement_kitchen 0 two_orders))) 0) = None"
  unfolding two_orders_def placement_kitchen_def placement_config_def
  by (simp add: model_defs state_defs)

text \<open>
  \<open>SetOrderReady\<close> runs the placement before the transition checks the state: an
  order already \<open>PickedUp\<close> is put on a free shelf and stays \<open>PickedUp\<close>.
\<close>

lemma SetOrderReady_shelves_picked_up_order:
  "state (order_at (snd best_freed) 0) = PickedUp
   \<and> shelf (order_at (snd best_freed) 0) = None
   \<and> fst (SetOrderReady (fst best_freed) 0 (snd best_freed)) = None
   \<and> state (order_at (snd (snd (SetOrderReady (fst best_freed) 0 (snd best_freed)))) 0)
       = PickedUp
   \<and> shelf (order_at (snd (snd (SetOrderReady (fst best_freed) 0 (snd best_freed)))) 0)
       = Some 2"
  unfolding best_freed_def placement_config_def kitchen_steps_def
  by (simp add: model_defs state_defs second_clock_def)

end
